theory Spec2Isabelle
  imports Main
begin

section \<open>Bytes and Go strings\<close>

text \<open>
  A Go \<^verbatim>\<open>string\<close> and a Go \<^verbatim>\<open>[]byte\<close> are both sequences of bytes; they are
  modelled as \<^typ>\<open>string\<close> (a list of 8-bit \<^typ>\<open>char\<close>).  \<open>byte c\<close> is the numeric
  value of a byte.
\<close>

definition byte :: "char \<Rightarrow> nat" where
  "byte c = of_char c"

abbreviation DQ :: char where "DQ \<equiv> CHR 0x22"
abbreviation BSL :: char where "BSL \<equiv> CHR 0x5C"
abbreviation LF :: char where "LF \<equiv> CHR 0x0A"
abbreviation CR :: char where "CR \<equiv> CHR 0x0D"
abbreviation TAB :: char where "TAB \<equiv> CHR 0x09"

section \<open>encoding/base64, StdEncoding\<close>

text \<open>
  \<^verbatim>\<open>base64.StdEncoding\<close>: the standard alphabet with \<^verbatim>\<open>=\<close> padding, not strict.
  \<open>EncodeToString\<close> turns each group of three bytes into four characters of the
  alphabet and pads the last group.
\<close>

definition encodeStd :: string where
  "encodeStd = ''ABCDEFGHIJKLMNOPQRSTUVWXYZabcdefghijklmnopqrstuvwxyz0123456789+/''"

definition b64_char :: "nat \<Rightarrow> char" where
  "b64_char n = encodeStd ! (n mod 64)"

fun EncodeToString :: "string \<Rightarrow> string" where
  "EncodeToString [] = []"
| "EncodeToString [a] =
     (let v = byte a * 65536
      in [b64_char (v div 262144), b64_char (v div 4096), CHR ''='', CHR ''=''])"
| "EncodeToString [a, b] =
     (let v = byte a * 65536 + byte b * 256
      in [b64_char (v div 262144), b64_char (v div 4096), b64_char (v div 64), CHR ''=''])"
| "EncodeToString (a # b # c # rest) =
     (let v = byte a * 65536 + byte b * 256 + byte c
      in [b64_char (v div 262144), b64_char (v div 4096), b64_char (v div 64), b64_char v]
         @ EncodeToString rest)"

text \<open>
  \<open>decodeMap\<close>: the position of a character in the alphabet, \<open>None\<close> where Go's table
  holds \<^verbatim>\<open>0xff\<close>.
\<close>

fun index_of :: "char \<Rightarrow> string \<Rightarrow> nat option" where
  "index_of c [] = None"
| "index_of c (x # xs) = (if c = x then Some 0 else map_option Suc (index_of c xs))"

definition decodeMap :: "char \<Rightarrow> nat option" where
  "decodeMap c = index_of c encodeStd"

text \<open>
  The three bytes of a quantum of four 6-bit values (\<^verbatim>\<open>val>>16, val>>8, val>>0\<close>, each
  truncated to a byte).
\<close>

definition quantum_bytes :: "nat \<Rightarrow> nat \<Rightarrow> nat \<Rightarrow> nat \<Rightarrow> string" where
  "quantum_bytes s0 s1 s2 s3 =
     (let v = s0 * 262144 + s1 * 4096 + s2 * 64 + s3
      in [char_of (v div 65536), char_of (v div 256), char_of v])"

text \<open>
  \<open>decodeQuantum\<close> skips \<^verbatim>\<open>\r\<close> and \<^verbatim>\<open>\n\<close> wherever they stand, so decoding
  is decoding of the input without them.  A quantum is four alphabet characters, or two
  followed by \<^verbatim>\<open>==\<close>, or three followed by \<^verbatim>\<open>=\<close>; after padding nothing may follow
  (trailing garbage), and an unpadded short quantum at the end of the input is corrupt.
\<close>

fun decode_quanta :: "string \<Rightarrow> string option" where
  "decode_quanta [] = Some []"
| "decode_quanta (a # b # c # d # rest) =
     (case (decodeMap a, decodeMap b) of
        (Some s0, Some s1) \<Rightarrow>
          (case decodeMap c of
             Some s2 \<Rightarrow>
               (case decodeMap d of
                  Some s3 \<Rightarrow> map_option (\<lambda>bs. quantum_bytes s0 s1 s2 s3 @ bs) (decode_quanta rest)
                | None \<Rightarrow>
                    if d = CHR ''='' \<and> rest = [] then Some (take 2 (quantum_bytes s0 s1 s2 0))
                    else None)
           | None \<Rightarrow>
               if c = CHR ''='' \<and> d = CHR ''='' \<and> rest = []
               then Some (take 1 (quantum_bytes s0 s1 0 0))
               else None)
      | _ \<Rightarrow> None)"
| "decode_quanta _ = None"

definition DecodeString :: "string \<Rightarrow> string option" where
  "DecodeString s = decode_quanta (filter (\<lambda>c. c \<noteq> CR \<and> c \<noteq> LF) s)"

section \<open>Ciphertext\<close>

text \<open>
  \<^verbatim>\<open>type Ciphertext struct { Key string; Bytes []byte }\<close> and its \<open>String\<close> method:
  \<^verbatim>\<open>fmt.Sprintf(`{"key":"%s","bytes":"%s"}`, c.Key, base64...EncodeToString(c.Bytes))\<close>.
  The verb \<^verbatim>\<open>%s\<close> copies the bytes of the key as they are.
\<close>

record Ciphertext =
  Key :: string
  Bytes :: string

definition String :: "Ciphertext \<Rightarrow> string" where
  \<open>String c = ''{"key":"'' @ Key c @ ''","bytes":"'' @ EncodeToString (Bytes c) @ ''"}''\<close>

text \<open>
  A byte \<open>String\<close> may copy into a JSON string literal as it is: printable ASCII other than
  the double quote and the backslash.
\<close>

definition plain :: "char \<Rightarrow> bool" where
  "plain c \<longleftrightarrow> 0x20 \<le> byte c \<and> byte c < 0x80 \<and> c \<noteq> DQ \<and> c \<noteq> BSL"

section \<open>unicode/utf8 and unicode/utf16\<close>

text \<open>
  Runes are natural numbers.  \<open>EncodeRune\<close> is \<^verbatim>\<open>utf8.EncodeRune\<close>: surrogates and
  values beyond \<^verbatim>\<open>U+10FFFF\<close> are written as \<^verbatim>\<open>U+FFFD\<close>.
\<close>

definition RuneError :: nat where
  "RuneError = 0xFFFD"

definition EncodeRune :: "nat \<Rightarrow> string" where
  "EncodeRune r =
     (if r < 0x80 then [char_of r]
      else if r < 0x800 then [char_of (0xC0 + r div 64), char_of (0x80 + r mod 64)]
      else if (0xD800 \<le> r \<and> r < 0xE000) \<or> 0x10FFFF < r then [CHR 0xEF, CHR 0xBF, CHR 0xBD]
      else if r < 0x10000
        then [char_of (0xE0 + r div 4096), char_of (0x80 + r div 64 mod 64), char_of (0x80 + r mod 64)]
      else [char_of (0xF0 + r div 262144), char_of (0x80 + r div 4096 mod 64),
            char_of (0x80 + r div 64 mod 64), char_of (0x80 + r mod 64)])"

text \<open>
  \<^verbatim>\<open>utf8.DecodeRune\<close>: the rune at the head of \<open>p\<close> and the number of bytes it takes;
  \<open>(RuneError, 1)\<close> for an encoding that is not well formed, \<open>(RuneError, 0)\<close> for no
  input.  \<open>first_byte\<close> is the table \<^verbatim>\<open>first\<close> with \<^verbatim>\<open>acceptRanges\<close>: the size of the
  sequence a leading byte opens and the range its second byte must lie in.
\<close>

definition first_byte :: "nat \<Rightarrow> (nat \<times> nat \<times> nat) option" where
  "first_byte p0 =
     (if p0 < 0xC2 then None
      else if p0 < 0xE0 then Some (2, 0x80, 0xBF)
      else if p0 = 0xE0 then Some (3, 0xA0, 0xBF)
      else if p0 = 0xED then Some (3, 0x80, 0x9F)
      else if p0 < 0xF0 then Some (3, 0x80, 0xBF)
      else if p0 = 0xF0 then Some (4, 0x90, 0xBF)
      else if p0 < 0xF4 then Some (4, 0x80, 0xBF)
      else if p0 = 0xF4 then Some (4, 0x80, 0x8F)
      else None)"

definition cont_byte :: "nat \<Rightarrow> bool" where
  "cont_byte b \<longleftrightarrow> 0x80 \<le> b \<and> b \<le> 0xBF"

definition DecodeRune :: "string \<Rightarrow> nat \<times> nat" where
  "DecodeRune p =
     (case p of
        [] \<Rightarrow> (RuneError, 0)
      | c0 # _ \<Rightarrow>
          if byte c0 < 0x80 then (byte c0, 1)
          else
            (case first_byte (byte c0) of
               None \<Rightarrow> (RuneError, 1)
             | Some (sz, lo, hi) \<Rightarrow>
                 if length p < sz then (RuneError, 1)
                 else
                   let b1 = byte (p ! 1) in
                   if b1 < lo \<or> hi < b1 then (RuneError, 1)
                   else if sz \<le> 2 then (byte c0 mod 32 * 64 + b1 mod 64, 2)
                   else
                     let b2 = byte (p ! 2) in
                     if \<not> cont_byte b2 then (RuneError, 1)
                     else if sz \<le> 3 then (byte c0 mod 16 * 4096 + b1 mod 64 * 64 + b2 mod 64, 3)
                     else
                       let b3 = byte (p ! 3) in
                       if \<not> cont_byte b3 then (RuneError, 1)
                       else (byte c0 mod 8 * 262144 + b1 mod 64 * 4096 + b2 mod 64 * 64
                             + b3 mod 64, 4)))"

text \<open>\<^verbatim>\<open>utf16.IsSurrogate\<close> and \<^verbatim>\<open>utf16.DecodeRune\<close>.\<close>

definition IsSurrogate :: "nat \<Rightarrow> bool" where
  "IsSurrogate r \<longleftrightarrow> 0xD800 \<le> r \<and> r < 0xE000"

definition utf16_DecodeRune :: "nat \<Rightarrow> nat \<Rightarrow> nat" where
  "utf16_DecodeRune r1 r2 =
     (if 0xD800 \<le> r1 \<and> r1 < 0xDC00 \<and> 0xDC00 \<le> r2 \<and> r2 < 0xE000
      then (r1 - 0xD800) * 1024 + (r2 - 0xDC00) + 0x10000
      else RuneError)"

section \<open>encoding/json: reading one value\<close>

text \<open>
  The decoder of \<^verbatim>\<open>encoding/json\<close> is not part of the repository; it is modelled by what
  it accepts and what it stores.  A \<^verbatim>\<open>json.Decoder\<close> reads the first JSON value of its
  stream with the scanner and leaves the bytes after it alone; then it stores the value
  into the target.  The value is kept here as a tree; a string is kept unquoted and a
  number as its literal text.  The limit on the depth of nesting that later versions of the
  library have is left out: a value nested deeper than an array of numbers inside an object
  is an error for a Ciphertext with or without it.
\<close>

datatype json =
    JNull
  | JBool bool
  | JNum string
  | JStr string
  | JArr "json list"
  | JObj "(string \<times> json) list"

datatype json_error =
    SyntaxError
  | ErrUnexpectedEOF
  | EOF
  | UnknownField string
  | UnmarshalTypeError
  | CorruptInputError

definition isSpace :: "char \<Rightarrow> bool" where
  "isSpace c \<longleftrightarrow> c = CHR '' '' \<or> c = TAB \<or> c = CR \<or> c = LF"

definition isDigit :: "char \<Rightarrow> bool" where
  "isDigit c \<longleftrightarrow> 0x30 \<le> byte c \<and> byte c \<le> 0x39"

text \<open>The value of a hexadecimal digit, as in \<open>getu4\<close>.\<close>

definition hexval :: "char \<Rightarrow> nat option" where
  "hexval c =
     (if 0x30 \<le> byte c \<and> byte c \<le> 0x39 then Some (byte c - 0x30)
      else if 0x61 \<le> byte c \<and> byte c \<le> 0x66 then Some (byte c - 0x61 + 10)
      else if 0x41 \<le> byte c \<and> byte c \<le> 0x46 then Some (byte c - 0x41 + 10)
      else None)"

text \<open>\<open>hex4 s\<close>: the rune of four hexadecimal digits at the head of \<open>s\<close>.\<close>

definition hex4 :: "string \<Rightarrow> nat option" where
  "hex4 s =
     (case s of
        a # b # c # d # _ \<Rightarrow>
          (case (hexval a, hexval b, hexval c, hexval d) of
             (Some x, Some y, Some z, Some w) \<Rightarrow> Some (((x * 16 + y) * 16 + z) * 16 + w)
           | _ \<Rightarrow> None)
      | _ \<Rightarrow> None)"

text \<open>\<open>getu4\<close>: the rune of an escape \<^verbatim>\<open>\uXXXX\<close> at the head of \<open>s\<close>, if there is one.\<close>

definition getu4 :: "string \<Rightarrow> nat option" where
  "getu4 s =
     (case s of
        b # u # rest \<Rightarrow> if b = BSL \<and> u = CHR ''u'' then hex4 rest else None
      | _ \<Rightarrow> None)"

text \<open>
  The scanner's states \<open>stateInString\<close>, \<open>stateInStringEsc\<close> and \<open>stateInStringEscU\<close>:
  \<open>scan_string cs\<close> reads a string literal from behind its opening quote up to its closing
  quote and returns the bytes between the quotes with the input that follows.  A byte below
  \<^verbatim>\<open>0x20\<close> is an error, a backslash is followed by one of \<^verbatim>\<open>" \ / b f n r t\<close> or by
  \<^verbatim>\<open>u\<close> and four hexadecimal digits, and any other byte is taken as it is.
\<close>

definition scanner_escape :: "char \<Rightarrow> bool" where
  "scanner_escape e \<longleftrightarrow>
     e = CHR ''b'' \<or> e = CHR ''f'' \<or> e = CHR ''n'' \<or> e = CHR ''r'' \<or> e = CHR ''t''
     \<or> e = BSL \<or> e = CHR ''/'' \<or> e = DQ"

function scan_string :: "string \<Rightarrow> json_error + string \<times> string" where
  "scan_string [] = Inl ErrUnexpectedEOF"
| "scan_string (c # cs) =
     (if c = DQ then Inr ([], cs)
      else if c = BSL then
        (case cs of
           [] \<Rightarrow> Inl ErrUnexpectedEOF
         | e # es \<Rightarrow>
             if e = CHR ''u'' then
               (if length es < 4 \<and> list_all (\<lambda>x. hexval x \<noteq> None) es then Inl ErrUnexpectedEOF
                else if hex4 es = None then Inl SyntaxError
                else map_sum id (\<lambda>(raw, rest). (c # e # take 4 es @ raw, rest))
                       (scan_string (drop 4 es)))
             else if scanner_escape e
               then map_sum id (\<lambda>(raw, rest). (c # e # raw, rest)) (scan_string es)
             else Inl SyntaxError)
      else if byte c < 0x20 then Inl SyntaxError
      else map_sum id (\<lambda>(raw, rest). (c # raw, rest)) (scan_string cs))"
  by pat_completeness auto
termination
  by (relation "measure length") auto

text \<open>
  \<open>unquoteBytes\<close>, on the bytes between the quotes: \<open>None\<close> where it returns \<^verbatim>\<open>ok = false\<close>.
  An escaped surrogate pair is one rune, a lone surrogate is \<^verbatim>\<open>U+FFFD\<close>, and bytes from
  \<^verbatim>\<open>0x80\<close> on are decoded and encoded again, so that a byte that is not well-formed UTF-8
  becomes \<^verbatim>\<open>U+FFFD\<close>.
\<close>

definition unquote_escape :: "char \<Rightarrow> char option" where
  "unquote_escape e =
     (if e = DQ \<or> e = BSL \<or> e = CHR ''/'' \<or> e = CHR 0x27 then Some e
      else if e = CHR ''b'' then Some (CHR 0x08)
      else if e = CHR ''f'' then Some (CHR 0x0C)
      else if e = CHR ''n'' then Some LF
      else if e = CHR ''r'' then Some CR
      else if e = CHR ''t'' then Some TAB
      else None)"

function unquote :: "string \<Rightarrow> string option" where
  "unquote [] = Some []"
| "unquote (c # cs) =
     (if c = BSL then
        (case cs of
           [] \<Rightarrow> None
         | e # es \<Rightarrow>
             if e = CHR ''u'' then
               (case hex4 es of
                  None \<Rightarrow> None
                | Some rr \<Rightarrow>
                    if IsSurrogate rr then
                      (case getu4 (drop 4 es) of
                         None \<Rightarrow> map_option (\<lambda>s. EncodeRune RuneError @ s) (unquote (drop 4 es))
                       | Some rr1 \<Rightarrow>
                           if utf16_DecodeRune rr rr1 \<noteq> RuneError
                           then map_option (\<lambda>s. EncodeRune (utf16_DecodeRune rr rr1) @ s)
                                  (unquote (drop 10 es))
                           else map_option (\<lambda>s. EncodeRune RuneError @ s) (unquote (drop 4 es)))
                    else map_option (\<lambda>s. EncodeRune rr @ s) (unquote (drop 4 es)))
             else
               (case unquote_escape e of
                  None \<Rightarrow> None
                | Some x \<Rightarrow> map_option (\<lambda>s. x # s) (unquote es)))
      else if c = DQ \<or> byte c < 0x20 then None
      else if byte c < 0x80 then map_option (\<lambda>s. c # s) (unquote cs)
      else
        map_option (\<lambda>s. EncodeRune (fst (DecodeRune (c # cs))) @ s)
          (unquote (drop (snd (DecodeRune (c # cs)) - 1) cs)))"
  by pat_completeness auto
termination
  by (relation "measure length") auto

text \<open>
  A string literal, scanned and unquoted.  \<open>unquoteBytes\<close> is only called on a literal the
  scanner has accepted; there it does not fail (lemma \<open>unquote_scanned\<close> below), so the
  branch for \<open>None\<close>, where Go panics, is never taken.
\<close>

definition read_string :: "string \<Rightarrow> json_error + string \<times> string" where
  "read_string cs =
     (case scan_string cs of
        Inl e \<Rightarrow> Inl e
      | Inr (raw, rest) \<Rightarrow>
          (case unquote raw of
             None \<Rightarrow> Inl SyntaxError
           | Some s \<Rightarrow> Inr (s, rest)))"

text \<open>
  A number literal, by the scanner's states \<open>stateNeg\<close>, \<open>state0\<close>, \<open>state1\<close>,
  \<open>stateDot\<close>, \<open>stateDot0\<close>, \<open>stateE\<close>, \<open>stateESign\<close> and \<open>stateE0\<close>.  The literal
  ends before the first byte that cannot continue it, or with the input.
\<close>

datatype num_state = SNeg | S0 | S1 | SDot | SDot0 | SE | SESign | SE0

datatype num_step = NCont num_state | NEnd | NErr

definition isE :: "char \<Rightarrow> bool" where
  "isE c \<longleftrightarrow> c = CHR ''e'' \<or> c = CHR ''E''"

fun step_num :: "num_state \<Rightarrow> char \<Rightarrow> num_step" where
  "step_num SNeg c =
     (if c = CHR ''0'' then NCont S0 else if isDigit c then NCont S1 else NErr)"
| "step_num S1 c =
     (if isDigit c then NCont S1
      else if c = CHR ''.'' then NCont SDot else if isE c then NCont SE else NEnd)"
| "step_num S0 c =
     (if c = CHR ''.'' then NCont SDot else if isE c then NCont SE else NEnd)"
| "step_num SDot c = (if isDigit c then NCont SDot0 else NErr)"
| "step_num SDot0 c =
     (if isDigit c then NCont SDot0 else if isE c then NCont SE else NEnd)"
| "step_num SE c =
     (if c = CHR ''+'' \<or> c = CHR ''-'' then NCont SESign
      else if isDigit c then NCont SE0 else NErr)"
| "step_num SESign c = (if isDigit c then NCont SE0 else NErr)"
| "step_num SE0 c = (if isDigit c then NCont SE0 else NEnd)"

fun num_final :: "num_state \<Rightarrow> bool" where
  "num_final S0 = True"
| "num_final S1 = True"
| "num_final SDot0 = True"
| "num_final SE0 = True"
| "num_final _ = False"

fun scan_num :: "num_state \<Rightarrow> string \<Rightarrow> string \<Rightarrow> json_error + string \<times> string" where
  "scan_num st acc [] = (if num_final st then Inr (acc, []) else Inl ErrUnexpectedEOF)"
| "scan_num st acc (c # cs) =
     (case step_num st c of
        NCont st' \<Rightarrow> scan_num st' (acc @ [c]) cs
      | NEnd \<Rightarrow> Inr (acc, c # cs)
      | NErr \<Rightarrow> Inl SyntaxError)"

text \<open>The state after the first byte of a number literal (\<open>stateBeginValue\<close>).\<close>

definition num_start :: "char \<Rightarrow> num_state option" where
  "num_start c =
     (if c = CHR ''-'' then Some SNeg
      else if c = CHR ''0'' then Some S0
      else if isDigit c then Some S1
      else None)"

text \<open>The rest of a literal \<^verbatim>\<open>true\<close>, \<^verbatim>\<open>false\<close> or \<^verbatim>\<open>null\<close>.\<close>

fun expect :: "string \<Rightarrow> string \<Rightarrow> json_error + string" where
  "expect [] cs = Inr cs"
| "expect (e # es) [] = Inl ErrUnexpectedEOF"
| "expect (e # es) (c # cs) = (if c = e then expect es cs else Inl SyntaxError)"

text \<open>
  The scanner keeps a stack of the containers it is in (\<open>parseState\<close>) and a step function.
  Here a stack entry also holds what has been read of its container: \<open>FObj fs k\<close> is an
  object with the members \<open>fs\<close> whose value for the key \<open>k\<close> is being read, \<open>FArr es\<close> an
  array with the elements \<open>es\<close> whose next element is being read.  The modes are the step
  functions: \<open>BeginString fs\<close> expects the next key of an object with members \<open>fs\<close>,
  \<open>ObjColon fs k\<close> is \<open>stateEndValue\<close> behind the key \<open>k\<close> (\<open>parseObjectKey\<close>), and
  \<open>EndValue v\<close> is \<open>stateEndValue\<close> behind the value \<open>v\<close>.
\<close>

datatype frame = FObj "(string \<times> json) list" string | FArr "json list"

datatype mode =
    BeginValue
  | BeginValueOrEmpty
  | BeginStringOrEmpty
  | BeginString "(string \<times> json) list"
  | ObjColon "(string \<times> json) list" string
  | EndValue json

lemma scan_string_length: "scan_string cs = Inr (raw, rest) \<Longrightarrow> length rest < Suc (length cs)"
proof (induction cs arbitrary: raw rest rule: scan_string.induct)
  case 1
  then show ?case by simp
next
  case (2 c cs)
  from "2.prems" show ?case
    apply (simp split: if_splits list.splits option.splits)
    using "2.IH" apply (fastforce simp: map_sum_def split: sum.splits prod.splits)+
    done
qed

lemma read_string_length: "read_string cs = Inr (s, rest) \<Longrightarrow> length rest < Suc (length cs)"
  by (auto simp: read_string_def dest: scan_string_length split: sum.splits option.splits)

lemma scan_num_length: "scan_num st acc cs = Inr (lit, rest) \<Longrightarrow> length rest \<le> length cs"
proof (induction cs arbitrary: st acc)
  case Nil
  then show ?case by (simp split: if_splits)
next
  case (Cons c cs)
  show ?case
  proof (cases "step_num st c")
    case (NCont st')
    with Cons.prems have "scan_num st' (acc @ [c]) cs = Inr (lit, rest)" by simp
    from Cons.IH [OF this] show ?thesis by simp
  next
    case NEnd
    with Cons.prems show ?thesis by simp
  next
    case NErr
    with Cons.prems show ?thesis by simp
  qed
qed

lemma expect_length: "expect es cs = Inr rest \<Longrightarrow> length rest \<le> length cs"
  by (induction es cs rule: expect.induct) (auto split: if_splits)

text \<open>
  \<open>run stk m cs\<close> reads the input \<open>cs\<close> in mode \<open>m\<close> inside the containers \<open>stk\<close> and
  returns the first value of the stream with the input behind it.  The value ends with its closing bracket or quote;
  a number at the top level ends before the first byte that cannot continue it or with the
  input (\<open>readValue\<close> steps the scanner with a space at the end of the input).  Nothing
  behind the value is looked at.  Input that ends inside a value is \<open>ErrUnexpectedEOF\<close>, and
  input of white space only is \<open>EOF\<close>.
\<close>

function run :: "frame list \<Rightarrow> mode \<Rightarrow> string \<Rightarrow> json_error + json \<times> string" where
  "run stk m [] =
     (case (stk, m) of
        ([], EndValue v) \<Rightarrow> Inr (v, [])
      | ([], BeginValue) \<Rightarrow> Inl EOF
      | _ \<Rightarrow> Inl ErrUnexpectedEOF)"
| "run stk (EndValue v) (c # cs) =
     (case stk of
        [] \<Rightarrow> Inr (v, c # cs)
      | FObj fs k # stk' \<Rightarrow>
          if isSpace c then run stk (EndValue v) cs
          else if c = CHR '','' then run stk' (BeginString (fs @ [(k, v)])) cs
          else if c = CHR ''}'' then run stk' (EndValue (JObj (fs @ [(k, v)]))) cs
          else Inl SyntaxError
      | FArr es # stk' \<Rightarrow>
          if isSpace c then run stk (EndValue v) cs
          else if c = CHR '','' then run (FArr (es @ [v]) # stk') BeginValue cs
          else if c = CHR '']'' then run stk' (EndValue (JArr (es @ [v]))) cs
          else Inl SyntaxError)"
| "run stk (ObjColon fs k) (c # cs) =
     (if isSpace c then run stk (ObjColon fs k) cs
      else if c = CHR '':'' then run (FObj fs k # stk) BeginValue cs
      else Inl SyntaxError)"
| "run stk (BeginString fs) (c # cs) =
     (if isSpace c then run stk (BeginString fs) cs
      else if c = DQ then
        (case read_string cs of
           Inl e \<Rightarrow> Inl e
         | Inr (k, rest) \<Rightarrow> run stk (ObjColon fs k) rest)
      else Inl SyntaxError)"
| "run stk BeginStringOrEmpty (c # cs) =
     (if isSpace c then run stk BeginStringOrEmpty cs
      else if c = CHR ''}'' then run stk (EndValue (JObj [])) cs
      else run stk (BeginString []) (c # cs))"
| "run stk BeginValueOrEmpty (c # cs) =
     (if isSpace c then run stk BeginValueOrEmpty cs
      else if c = CHR '']'' then run stk (EndValue (JArr [])) cs
      else run (FArr [] # stk) BeginValue (c # cs))"
| "run stk BeginValue (c # cs) =
     (if isSpace c then run stk BeginValue cs
      else if c = CHR ''{'' then run stk BeginStringOrEmpty cs
      else if c = CHR ''['' then run stk BeginValueOrEmpty cs
      else if c = DQ then
        (case read_string cs of
           Inl e \<Rightarrow> Inl e
         | Inr (s, rest) \<Rightarrow> run stk (EndValue (JStr s)) rest)
      else if c = CHR ''t'' then
        (case expect ''rue'' cs of
           Inl e \<Rightarrow> Inl e
         | Inr rest \<Rightarrow> run stk (EndValue (JBool True)) rest)
      else if c = CHR ''f'' then
        (case expect ''alse'' cs of
           Inl e \<Rightarrow> Inl e
         | Inr rest \<Rightarrow> run stk (EndValue (JBool False)) rest)
      else if c = CHR ''n'' then
        (case expect ''ull'' cs of
           Inl e \<Rightarrow> Inl e
         | Inr rest \<Rightarrow> run stk (EndValue JNull) rest)
      else
        (case num_start c of
           None \<Rightarrow> Inl SyntaxError
         | Some st \<Rightarrow>
             (case scan_num st [c] cs of
                Inl e \<Rightarrow> Inl e
              | Inr (lit, rest) \<Rightarrow> run stk (EndValue (JNum lit)) rest)))"
  by pat_completeness auto
termination
proof (relation "measure (\<lambda>(stk, m, cs). 2 * length cs
          + (case m of BeginValueOrEmpty \<Rightarrow> 1 | BeginStringOrEmpty \<Rightarrow> 1 | _ \<Rightarrow> 0))",
       goal_cases)
  case 1
  show ?case by simp
qed (auto dest: read_string_length scan_num_length expect_length split: mode.splits)

definition readValue :: "string \<Rightarrow> json_error + json \<times> string" where
  "readValue input = run [] BeginValue input"

section \<open>encoding/json: storing a value into a Ciphertext\<close>

text \<open>
  The name of an object member is matched with the struct's fields: first exactly, then
  without regard to case, with the function \<open>foldFunc\<close> chooses for the field's name.  Both
  \<^verbatim>\<open>key\<close> and \<^verbatim>\<open>bytes\<close> are ASCII names that hold a \<^verbatim>\<open>k\<close> or an \<^verbatim>\<open>s\<close>, so the
  function is \<open>equalFoldRight\<close>, which lets the Kelvin sign stand for \<^verbatim>\<open>k\<close> and the long s
  for \<^verbatim>\<open>s\<close>.  \<open>caseMask b\<close> is \<^verbatim>\<open>b & ^0x20\<close>.
\<close>

definition caseMask :: "nat \<Rightarrow> nat" where
  "caseMask b = (if b div 32 mod 2 = 1 then b - 32 else b)"

fun equalFoldRight :: "string \<Rightarrow> string \<Rightarrow> bool" where
  "equalFoldRight [] t = (t = [])"
| "equalFoldRight (sb # s) t =
     (case t of
        [] \<Rightarrow> False
      | tb # t' \<Rightarrow>
          if byte tb < 0x80 then
            (if sb \<noteq> tb then
               (if 0x41 \<le> caseMask (byte sb) \<and> caseMask (byte sb) \<le> 0x5A
                then (if caseMask (byte sb) \<noteq> caseMask (byte tb) then False
                      else equalFoldRight s t')
                else False)
             else equalFoldRight s t')
          else
            (case DecodeRune t of
               (tr, sz) \<Rightarrow>
                 if sb = CHR ''s'' \<or> sb = CHR ''S''
                   then (if tr \<noteq> 0x17F then False else equalFoldRight s (drop sz t))
                 else if sb = CHR ''k'' \<or> sb = CHR ''K''
                   then (if tr \<noteq> 0x212A then False else equalFoldRight s (drop sz t))
                 else False))"

datatype field = FieldKey | FieldBytes

definition find_field :: "string \<Rightarrow> field option" where
  "find_field name =
     (if name = ''key'' then Some FieldKey
      else if name = ''bytes'' then Some FieldBytes
      else if equalFoldRight ''key'' name then Some FieldKey
      else if equalFoldRight ''bytes'' name then Some FieldBytes
      else None)"

text \<open>\<open>saveError\<close> keeps the first error; decoding goes on.\<close>

definition saveError :: "json_error \<Rightarrow> json_error option \<Rightarrow> json_error option" where
  "saveError e saved = (case saved of None \<Rightarrow> Some e | Some e0 \<Rightarrow> Some e0)"

text \<open>
  A number for an element of type \<^verbatim>\<open>uint8\<close>: \<^verbatim>\<open>strconv.ParseUint(s, 10, 64)\<close> and the
  overflow check, so the literal is made of digits only and is at most 255.
\<close>

definition parse_uint8 :: "string \<Rightarrow> nat option" where
  "parse_uint8 lit =
     (if lit \<noteq> [] \<and> list_all isDigit lit
      then (let n = fold (\<lambda>c a. a * 10 + (byte c - 0x30)) lit 0
            in if n \<le> 255 then Some n else None)
      else None)"

text \<open>
  A JSON array stored into the slice \<open>Bytes\<close>: the slice gets the length of the array, and
  each element is stored into its place.  An element that is \<^verbatim>\<open>null\<close> or cannot be stored
  leaves its place as it was: the old byte where the slice had one, zero otherwise (the
  spare capacity of a slice is taken to be zero).
\<close>

fun store_elem :: "json \<Rightarrow> char \<Rightarrow> char \<times> json_error option" where
  "store_elem (JNum lit) old =
     (case parse_uint8 lit of
        Some n \<Rightarrow> (char_of n, None)
      | None \<Rightarrow> (old, Some UnmarshalTypeError))"
| "store_elem JNull old = (old, None)"
| "store_elem _ old = (old, Some UnmarshalTypeError)"

fun array :: "json list \<Rightarrow> nat \<Rightarrow> string \<Rightarrow> json_error option \<Rightarrow> string \<times> json_error option" where
  "array [] i old saved = ([], saved)"
| "array (e # es) i old saved =
     (case store_elem e (if i < length old then old ! i else CHR 0x00) of
        (b, err) \<Rightarrow>
          (case array es (Suc i) old (case err of None \<Rightarrow> saved | Some x \<Rightarrow> saveError x saved) of
             (bs, saved') \<Rightarrow> (b # bs, saved')))"

text \<open>
  A value stored into the field \<open>Key\<close> (a Go string): a JSON string sets it, \<^verbatim>\<open>null\<close>
  leaves it, anything else is an \<open>UnmarshalTypeError\<close>.
\<close>

fun store_Key :: "json \<Rightarrow> Ciphertext \<times> json_error option \<Rightarrow> Ciphertext \<times> json_error option" where
  "store_Key (JStr s) (c, saved) = (c\<lparr>Key := s\<rparr>, saved)"
| "store_Key JNull (c, saved) = (c, saved)"
| "store_Key _ (c, saved) = (c, saveError UnmarshalTypeError saved)"

text \<open>
  A value stored into the field \<open>Bytes\<close> (a \<^verbatim>\<open>[]byte\<close>): a JSON string is decoded with
  \<^verbatim>\<open>base64.StdEncoding\<close>, and a failure is saved and leaves the field; \<^verbatim>\<open>null\<close> sets the
  field to the nil slice; an array is stored element by element.
\<close>

fun store_Bytes :: "json \<Rightarrow> Ciphertext \<times> json_error option \<Rightarrow> Ciphertext \<times> json_error option" where
  "store_Bytes (JStr s) (c, saved) =
     (case DecodeString s of
        None \<Rightarrow> (c, saveError CorruptInputError saved)
      | Some b \<Rightarrow> (c\<lparr>Bytes := b\<rparr>, saved))"
| "store_Bytes JNull (c, saved) = (c\<lparr>Bytes := []\<rparr>, saved)"
| "store_Bytes (JArr es) (c, saved) =
     (case array es 0 (Bytes c) saved of (bs, saved') \<Rightarrow> (c\<lparr>Bytes := bs\<rparr>, saved'))"
| "store_Bytes _ (c, saved) = (c, saveError UnmarshalTypeError saved)"

text \<open>
  The members of an object, in their order.  The decoder is set to
  \<open>DisallowUnknownFields\<close>: a name that matches no field is saved as an error and its value
  is skipped.
\<close>

fun object :: "(string \<times> json) list \<Rightarrow> Ciphertext \<times> json_error option \<Rightarrow> Ciphertext \<times> json_error option" where
  "object [] st = st"
| "object ((name, v) # fs) st =
     object fs
       (case find_field name of
          Some FieldKey \<Rightarrow> store_Key v st
        | Some FieldBytes \<Rightarrow> store_Bytes v st
        | None \<Rightarrow> (fst st, saveError (UnknownField name) (snd st)))"

text \<open>
  \<open>unmarshal\<close> stores a value into a \<^verbatim>\<open>*Ciphertext\<close>: an object member by member,
  \<^verbatim>\<open>null\<close> not at all, and any other value is an \<open>UnmarshalTypeError\<close>.
\<close>

fun unmarshal :: "json \<Rightarrow> Ciphertext \<Rightarrow> Ciphertext \<times> json_error option" where
  "unmarshal (JObj fs) c = object fs (c, None)"
| "unmarshal JNull c = (c, None)"
| "unmarshal _ c = (c, Some UnmarshalTypeError)"

text \<open>
  \<^verbatim>\<open>decoder.Decode(c)\<close> on a stream with the bytes \<open>input\<close>: the receiver as it is left, and
  the error.  A syntax error leaves the receiver untouched.
\<close>

definition Decode :: "string \<Rightarrow> Ciphertext \<Rightarrow> Ciphertext \<times> json_error option" where
  "Decode input c =
     (case readValue input of
        Inl e \<Rightarrow> (c, Some e)
      | Inr (v, rest) \<Rightarrow> unmarshal v c)"

section \<open>Errors\<close>

text \<open>
  The error values of the repository: \<^verbatim>\<open>errors.New(msg)\<close>, the three conditions of package
  \<^verbatim>\<open>kes\<close> the key stores return, the two errors of the operating system the key stores
  tell apart (the file exists, the file does not exist), and \<open>Other\<close> for any other error
  a collaborator hands over (the operating system, a KMS, the parser of a Secret), which the
  key stores pass on as it is.
\<close>

datatype error =
    ErrorsNew string
  | ErrKeyExists
  | ErrKeyNotFound
  | ErrKeySealed
  | ErrExist
  | ErrNotExist
  | Other string

text \<open>\<^verbatim>\<open>os.IsExist\<close> and \<^verbatim>\<open>os.IsNotExist\<close>.\<close>

definition IsExist :: "error \<Rightarrow> bool" where
  "IsExist err \<longleftrightarrow> err = ErrExist"

definition IsNotExist :: "error \<Rightarrow> bool" where
  "IsNotExist err \<longleftrightarrow> err = ErrNotExist"

section \<open>Ciphertext.ReadFrom\<close>

text \<open>
  \<^verbatim>\<open>const MaxSize = 10 * 1 << 20\<close>; in Go \<^verbatim>\<open>*\<close> and \<^verbatim>\<open><<\<close> have the same precedence
  and associate to the left.
\<close>

definition MaxSize :: nat where
  "MaxSize = (10 * 1) * 2 ^ 20"

text \<open>
  \<open>ReadFrom c r\<close> is \<^verbatim>\<open>c.ReadFrom(r)\<close> for a reader that delivers the bytes \<open>r\<close> and then
  the end of the file.  The \<^verbatim>\<open>io.LimitedReader\<close> hands the decoder the first \<open>MaxSize\<close>
  bytes of \<open>r\<close> and then the end of the file.  The result is the receiver as it is left
  and the error.  The count of bytes read, which depends on how the decoder fills its
  buffer, is left out: both callers in the repository drop it.
\<close>

definition ReadFrom :: "Ciphertext \<Rightarrow> string \<Rightarrow> Ciphertext \<times> error option" where
  "ReadFrom c r =
     (case Decode (take MaxSize r) c of
        (c', derr) \<Rightarrow>
          (let err = (case derr of
                        Some e \<Rightarrow> Some (ErrorsNew ''ciphertext is malformed'')
                      | None \<Rightarrow> None)
           in if err \<noteq> None then (c', err)
              else if Key c' = [] then (c', Some (ErrorsNew ''ciphertext is malformed''))
              else (c', None)))"

text \<open>The zero value \<^verbatim>\<open>Ciphertext{}\<close>, which every caller reads into.\<close>

definition zero_Ciphertext :: Ciphertext where
  "zero_Ciphertext = \<lparr>Key = [], Bytes = []\<rparr>"

section \<open>What the key stores use from outside src\<close>

text \<open>
  The type \<^verbatim>\<open>secret.Secret\<close> and its methods are not under src.  A Secret is a value of
  a type \<open>'s\<close>, and the methods the key stores call are parameters: the zero value
  \<^verbatim>\<open>Secret{}\<close>, \<open>String\<close>, the bytes \<open>WriteTo\<close> writes, and \<open>ParseString\<close> and \<open>ReadFrom\<close>
  on a zero receiver, which give the receiver as it is left and the error.
  \<open>filepath_Join\<close> is \<^verbatim>\<open>filepath.Join\<close>.
\<close>

record 's externals =
  Secret_zero :: 's
  Secret_String :: "'s \<Rightarrow> string"
  Secret_WriteTo :: "'s \<Rightarrow> string"
  Secret_ParseString :: "string \<Rightarrow> 's \<times> error option"
  Secret_ReadFrom :: "string \<Rightarrow> 's \<times> error option"
  filepath_Join :: "string \<Rightarrow> string \<Rightarrow> string"

text \<open>The interface \<^verbatim>\<open>secret.KMS\<close>; both methods return a value and an error.\<close>

record 's KMS =
  Encrypt :: "string \<Rightarrow> 's \<Rightarrow> Ciphertext \<times> error option"
  Decrypt :: "Ciphertext \<Rightarrow> 's \<times> error option"

text \<open>
  Modelled from the spec: the type \<^verbatim>\<open>cache.Cache\<close> (package internal/cache) is not under
  src.  By section 4.1 of the specification it is a mapping from names to Secrets: \<open>Get\<close>
  returns the Secret and whether it was found, \<open>Set\<close> inserts or overwrites, \<open>Add\<close> inserts
  only if the name is absent and returns the Secret the cache then holds, \<open>Delete\<close> removes
  the entry.  The two sweeps only remove entries, which is \<open>cache_Delete\<close> at some moment;
  the time stamps that say when are left out.
\<close>

type_synonym 's Cache = "string \<rightharpoonup> 's"

definition cache_Get :: "'s externals \<Rightarrow> 's Cache \<Rightarrow> string \<Rightarrow> 's \<times> bool" where
  "cache_Get X cache name =
     (case cache name of Some secret \<Rightarrow> (secret, True) | None \<Rightarrow> (Secret_zero X, False))"

definition cache_Set :: "'s Cache \<Rightarrow> string \<Rightarrow> 's \<Rightarrow> 's Cache" where
  "cache_Set cache name secret = cache(name \<mapsto> secret)"

definition cache_Add :: "'s Cache \<Rightarrow> string \<Rightarrow> 's \<Rightarrow> 's Cache \<times> 's \<times> bool" where
  "cache_Add cache name secret =
     (case cache name of
        Some s0 \<Rightarrow> (cache, s0, False)
      | None \<Rightarrow> (cache(name \<mapsto> secret), secret, True))"

definition cache_Delete :: "'s Cache \<Rightarrow> string \<Rightarrow> 's Cache" where
  "cache_Delete cache name = cache(name := None)"

text \<open>A line of the error log: the format and the arguments of \<open>logf\<close>.\<close>

datatype arg = S string | E error

type_synonym log_line = "string \<times> arg list"

section \<open>The file system\<close>

text \<open>
  The files of the directory are a map from paths to contents.  Each call of the operating
  system may fail for a reason of its own (permissions, a full disk): \<open>fs_faults\<close> says
  what fails during one operation of the key store, each failure with its message \<open>msg\<close>,
  which makes the error \<open>Other msg\<close>.  \<open>open_fault\<close> is an error of \<^verbatim>\<open>os.OpenFile\<close> or
  \<^verbatim>\<open>os.Open\<close>, \<open>write_fault = Some (n, msg)\<close> lets \<open>WriteTo\<close> fail after \<open>n\<close> bytes,
  \<open>sync_fault\<close> is an error of \<^verbatim>\<open>file.Sync\<close>, \<open>remove_fault\<close> an error of \<^verbatim>\<open>os.Remove\<close>.  Where nothing fails, \<^verbatim>\<open>O_CREATE|O_EXCL\<close> creates an empty file
  or reports that the file exists, \<^verbatim>\<open>os.Open\<close> and \<^verbatim>\<open>os.Remove\<close> report a file that
  does not exist, and reading an open file delivers its content.
\<close>

record fs_faults =
  open_fault :: "string option"
  write_fault :: "(nat \<times> string) option"
  sync_fault :: "string option"
  remove_fault :: "string option"

definition no_faults :: fs_faults where
  "no_faults = \<lparr>open_fault = None, write_fault = None, sync_fault = None, remove_fault = None\<rparr>"

type_synonym files = "string \<rightharpoonup> string"

definition os_OpenFile_excl :: "string option \<Rightarrow> files \<Rightarrow> string \<Rightarrow> files \<times> error option" where
  "os_OpenFile_excl fault fls path =
     (case fault of
        Some msg \<Rightarrow> (fls, Some (Other msg))
      | None \<Rightarrow>
          (case fls path of
             Some content \<Rightarrow> (fls, Some ErrExist)
           | None \<Rightarrow> (fls(path \<mapsto> []), None)))"

definition os_Open :: "string option \<Rightarrow> files \<Rightarrow> string \<Rightarrow> string \<times> error option" where
  "os_Open fault fls path =
     (case fault of
        Some msg \<Rightarrow> ([], Some (Other msg))
      | None \<Rightarrow>
          (case fls path of
             Some content \<Rightarrow> (content, None)
           | None \<Rightarrow> ([], Some ErrNotExist)))"

definition os_Remove :: "string option \<Rightarrow> files \<Rightarrow> string \<Rightarrow> files \<times> error option" where
  "os_Remove fault fls path =
     (case fault of
        Some msg \<Rightarrow> (fls, Some (Other msg))
      | None \<Rightarrow>
          (case fls path of
             Some content \<Rightarrow> (fls(path := None), None)
           | None \<Rightarrow> (fls, Some ErrNotExist)))"

definition file_Write :: "(nat \<times> string) option \<Rightarrow> files \<Rightarrow> string \<Rightarrow> string \<Rightarrow> files \<times> error option" where
  "file_Write fault fls path content =
     (case fault of
        Some (n, msg) \<Rightarrow> (fls(path \<mapsto> take n content), Some (Other msg))
      | None \<Rightarrow> (fls(path \<mapsto> content), None))"

definition file_Sync :: "string option \<Rightarrow> error option" where
  "file_Sync fault = map_option Other fault"

section \<open>internal/fs: KeyStore\<close>

text \<open>
  The state the operations of the file system key store act on: the fields \<open>Dir\<close>, \<open>Key\<close>,
  \<open>KMS\<close> (\<open>None\<close> for \<^verbatim>\<open>nil\<close>) and \<open>cache\<close> of the struct, the files on disk, and the lines
  written to the error log.  The fields that set the cache's timers and the logger are left
  out, and \<open>initialize\<close>, which starts the two sweeps, changes nothing here.
\<close>

record 's fs_KeyStore =
  fs_Dir :: string
  fs_Key :: string
  fs_KMS :: "'s KMS option"
  fs_cache :: "'s Cache"
  fs_files :: files
  fs_log :: "log_line list"

definition fs_logf :: "'s fs_KeyStore \<Rightarrow> string \<Rightarrow> arg list \<Rightarrow> 's fs_KeyStore" where
  "fs_logf store format v = store\<lparr>fs_log := fs_log store @ [(format, v)]\<rparr>"

text \<open>
  \<open>Create\<close>.  The content is the Secret or, with a KMS, the Ciphertext, whose \<open>WriteTo\<close> writes
  its \<open>String\<close>.  A write or a sync that fails removes the file again; an error of the removal
  is logged (with the error of the write, as the source passes \<^verbatim>\<open>err\<close>, not \<^verbatim>\<open>rmErr\<close>).
\<close>

definition fs_Create ::
  "'s externals \<Rightarrow> fs_faults \<Rightarrow> 's fs_KeyStore \<Rightarrow> string \<Rightarrow> 's \<Rightarrow> 's fs_KeyStore \<times> error option" where
  "fs_Create X env store name secret =
     (case cache_Get X (fs_cache store) name of
        (cached, True) \<Rightarrow> (store, Some ErrKeyExists)
      | (cached, False) \<Rightarrow>
          (case (case fs_KMS store of
                   None \<Rightarrow> (Secret_WriteTo X secret, None)
                 | Some kms \<Rightarrow>
                     (case Encrypt kms (fs_Key store) secret of
                        (ciphertext, err) \<Rightarrow> (String ciphertext, err))) of
             (content, Some err) \<Rightarrow>
               (fs_logf store ''fs: failed to encrypt secret '%s' with master key '%s': %v''
                  [S name, S (fs_Key store), E err],
                Some err)
           | (content, None) \<Rightarrow>
               (let path = filepath_Join X (fs_Dir store) name in
                case os_OpenFile_excl (open_fault env) (fs_files store) path of
                  (fls1, Some err) \<Rightarrow>
                    if IsExist err then (store, Some ErrKeyExists)
                    else (fs_logf store ''fs: cannot open %s: %v'' [S path, E err], Some err)
                | (fls1, None) \<Rightarrow>
                    (case file_Write (write_fault env) fls1 path content of
                       (fls2, Some err) \<Rightarrow>
                         (case os_Remove (remove_fault env) fls2 path of
                            (fls3, Some rmErr) \<Rightarrow>
                              (fs_logf (store\<lparr>fs_files := fls3\<rparr>)
                                 ''fs: cannot remove %s: %v'' [S path, E err],
                               Some err)
                          | (fls3, None) \<Rightarrow> (store\<lparr>fs_files := fls3\<rparr>, Some err))
                     | (fls2, None) \<Rightarrow>
                         (case file_Sync (sync_fault env) of
                            Some err \<Rightarrow>
                              (let store1 = fs_logf (store\<lparr>fs_files := fls2\<rparr>)
                                     ''fs: cannot to flush and sync %s: %v'' [S path, E err]
                               in case os_Remove (remove_fault env) fls2 path of
                                    (fls3, Some rmErr) \<Rightarrow>
                                      (fs_logf (store1\<lparr>fs_files := fls3\<rparr>)
                                         ''fs: cannot remove %s: %v'' [S path, E err],
                                       Some err)
                                  | (fls3, None) \<Rightarrow> (store1\<lparr>fs_files := fls3\<rparr>, Some err))
                          | None \<Rightarrow>
                              (store\<lparr>fs_files := fls2,
                                     fs_cache := cache_Set (fs_cache store) name secret\<rparr>,
                               None))))))"

text \<open>
  \<open>Get\<close>.  The source declares \<^verbatim>\<open>var sec secret.Secret\<close> before the branch on the KMS.  In
  the branch with a KMS, \<^verbatim>\<open>sec, err := store.KMS.Decrypt(ciphertext)\<close> declares a new
  \<^verbatim>\<open>sec\<close> inside the block: the decrypted Secret is in scope up to the end of the block,
  and the \<^verbatim>\<open>sec\<close> that \<^verbatim>\<open>store.cache.Add(name, sec)\<close> gets behind the block is the outer
  one, which is still the zero value.
\<close>

definition fs_Get ::
  "'s externals \<Rightarrow> fs_faults \<Rightarrow> 's fs_KeyStore \<Rightarrow> string \<Rightarrow> 's fs_KeyStore \<times> 's \<times> error option" where
  "fs_Get X env store name =
     (case cache_Get X (fs_cache store) name of
        (secret, True) \<Rightarrow> (store, secret, None)
      | (secret, False) \<Rightarrow>
          (let path = filepath_Join X (fs_Dir store) name in
           case os_Open (open_fault env) (fs_files store) path of
             (file, Some err) \<Rightarrow>
               if IsNotExist err then (store, Secret_zero X, Some ErrKeyNotFound)
               else (fs_logf store ''fs: cannot open '%s': %v'' [S path, E err],
                     Secret_zero X, Some err)
           | (file, None) \<Rightarrow>
               (case (case fs_KMS store of
                        None \<Rightarrow>
                          (case Secret_ReadFrom X file of
                             (sec, Some err) \<Rightarrow>
                               Inl (fs_logf store ''fs: failed to parse secret at '%s': %v''
                                      [S path, E err],
                                    sec, Some err)
                           | (sec, None) \<Rightarrow> Inr sec)
                      | Some kms \<Rightarrow>
                          (case ReadFrom zero_Ciphertext file of
                             (ciphertext, Some err) \<Rightarrow>
                               Inl (fs_logf store ''fs: failed to parse ciphertext at '%s': %v''
                                      [S path, E err],
                                    Secret_zero X, Some ErrKeySealed)
                           | (ciphertext, None) \<Rightarrow>
                               (case Decrypt kms ciphertext of
                                  (sec', Some err) \<Rightarrow>
                                    Inl (fs_logf store
                                           ''fs: failed to decrypt ciphertext at '%s': %v''
                                           [S path, E err],
                                         sec', Some ErrKeySealed)
                                | (sec', None) \<Rightarrow> Inr (Secret_zero X)))) of
                  Inl returned \<Rightarrow> returned
                | Inr sec \<Rightarrow>
                    (case cache_Add (fs_cache store) name sec of
                       (cache', secret, added) \<Rightarrow>
                         (store\<lparr>fs_cache := cache'\<rparr>, secret, None)))))"

text \<open>\<open>Delete\<close>: the cache entry is removed whatever \<^verbatim>\<open>os.Remove\<close> returns.\<close>

definition fs_Delete ::
  "'s externals \<Rightarrow> fs_faults \<Rightarrow> 's fs_KeyStore \<Rightarrow> string \<Rightarrow> 's fs_KeyStore \<times> error option" where
  "fs_Delete X env store name =
     (let path = filepath_Join X (fs_Dir store) name in
      case os_Remove (remove_fault env) (fs_files store) path of
        (fls1, err0) \<Rightarrow>
          (let err = (case err0 of
                        Some e \<Rightarrow> if IsNotExist e then None else Some e
                      | None \<Rightarrow> None);
               store1 = store\<lparr>fs_files := fls1,
                               fs_cache := cache_Delete (fs_cache store) name\<rparr>
           in case err of
                Some e \<Rightarrow> (fs_logf store1 ''fs: failed to delete '%s': %v'' [S path, E e], Some e)
              | None \<Rightarrow> (store1, None)))"

section \<open>The in-memory KeyStore\<close>

text \<open>
  The fields \<open>Key\<close>, \<open>KMS\<close>, \<open>cache\<close> and \<open>store\<close> of the struct and the lines written to the
  error log.  \<open>mem_store\<close> is \<open>None\<close> for the \<^verbatim>\<open>nil\<close> map; reading a \<^verbatim>\<open>nil\<close> map finds
  nothing and deleting from it does nothing.  The lock is held over each operation, so the
  operations follow one another.
\<close>

record 's mem_KeyStore =
  mem_Key :: string
  mem_KMS :: "'s KMS option"
  mem_cache :: "'s Cache"
  mem_store :: "(string \<rightharpoonup> string) option"
  mem_log :: "log_line list"

definition mem_logf :: "'s mem_KeyStore \<Rightarrow> string \<Rightarrow> arg list \<Rightarrow> 's mem_KeyStore" where
  "mem_logf store format v = store\<lparr>mem_log := mem_log store @ [(format, v)]\<rparr>"

definition lookup :: "(string \<rightharpoonup> string) option \<Rightarrow> string \<Rightarrow> string option" where
  "lookup m name = (case m of None \<Rightarrow> None | Some t \<Rightarrow> t name)"

text \<open>\<open>initialize\<close>: the map is made if it is \<^verbatim>\<open>nil\<close>.\<close>

definition mem_initialize :: "'s mem_KeyStore \<Rightarrow> 's mem_KeyStore" where
  "mem_initialize store =
     (case mem_store store of
        None \<Rightarrow> store\<lparr>mem_store := Some Map.empty\<rparr>
      | Some t \<Rightarrow> store)"

definition mem_Create ::
  "'s externals \<Rightarrow> 's mem_KeyStore \<Rightarrow> string \<Rightarrow> 's \<Rightarrow> 's mem_KeyStore \<times> error option" where
  "mem_Create X store0 name secret =
     (case cache_Get X (mem_cache store0) name of
        (cached, True) \<Rightarrow> (store0, Some ErrKeyExists)
      | (cached, False) \<Rightarrow>
          (let store = (if mem_store store0 = None then mem_initialize store0 else store0) in
           case (case mem_KMS store of
                   None \<Rightarrow> (Secret_String X secret, None)
                 | Some kms \<Rightarrow>
                     (case Encrypt kms (mem_Key store) secret of
                        (ciphertext, err) \<Rightarrow> (String ciphertext, err))) of
             (content, Some err) \<Rightarrow>
               (mem_logf store ''mem: failed to encrypt secret '%s' with master key '%s': %v''
                  [S name, S (mem_Key store), E err],
                Some err)
           | (content, None) \<Rightarrow>
               (case lookup (mem_store store) name of
                  Some present \<Rightarrow> (store, Some ErrKeyExists)
                | None \<Rightarrow>
                    (store\<lparr>mem_cache := cache_Set (mem_cache store) name secret,
                           mem_store := Some ((case mem_store store of
                                                 None \<Rightarrow> Map.empty
                                               | Some t \<Rightarrow> t)(name \<mapsto> content))\<rparr>,
                     None))))"

definition mem_Delete :: "'s mem_KeyStore \<Rightarrow> string \<Rightarrow> 's mem_KeyStore \<times> error option" where
  "mem_Delete store name =
     (store\<lparr>mem_cache := cache_Delete (mem_cache store) name,
            mem_store := map_option (\<lambda>t. t(name := None)) (mem_store store)\<rparr>,
      None)"

text \<open>
  \<open>Get\<close>.  Here \<^verbatim>\<open>sec, err = store.KMS.Decrypt(ciphertext)\<close> assigns to the \<^verbatim>\<open>sec\<close> of the
  function, which is then cached and returned.
\<close>

definition mem_Get ::
  "'s externals \<Rightarrow> 's mem_KeyStore \<Rightarrow> string \<Rightarrow> 's mem_KeyStore \<times> 's \<times> error option" where
  "mem_Get X store name =
     (case cache_Get X (mem_cache store) name of
        (sec, True) \<Rightarrow> (store, sec, None)
      | (sec, False) \<Rightarrow>
          (case lookup (mem_store store) name of
             None \<Rightarrow> (store, Secret_zero X, Some ErrKeyNotFound)
           | Some s \<Rightarrow>
               (case (case mem_KMS store of
                        None \<Rightarrow>
                          (case Secret_ParseString X s of
                             (sec1, Some err) \<Rightarrow>
                               Inl (mem_logf store ''mem: failed to parse secret '%s': %v''
                                      [S name, E err],
                                    Secret_zero X, Some err)
                           | (sec1, None) \<Rightarrow> Inr sec1)
                      | Some kms \<Rightarrow>
                          (case ReadFrom zero_Ciphertext s of
                             (ciphertext, Some err) \<Rightarrow>
                               Inl (mem_logf store ''mem: failed to parse ciphertext '%s': %v''
                                      [S name, E err],
                                    Secret_zero X, Some ErrKeySealed)
                           | (ciphertext, None) \<Rightarrow>
                               (case Decrypt kms ciphertext of
                                  (sec1, Some err) \<Rightarrow>
                                    Inl (mem_logf store
                                           ''mem: failed to decrypt ciphertext '%s': %v''
                                           [S name, E err],
                                         Secret_zero X, Some ErrKeySealed)
                                | (sec1, None) \<Rightarrow> Inr sec1))) of
                  Inl returned \<Rightarrow> returned
                | Inr sec1 \<Rightarrow>
                    (store\<lparr>mem_cache := cache_Set (mem_cache store) name sec1\<rparr>, sec1, None))))"

section \<open>A small instance\<close>

text \<open>
  An instance to run the key stores on: Secrets are byte strings that are written as they
  are, the zero Secret is the empty string, and a path is the directory, a slash and the
  name.  \<open>stub_KMS\<close> is a KMS whose \<open>Decrypt\<close> inverts its \<open>Encrypt\<close>: the ciphertext holds
  the bytes of the Secret in reverse.  \<open>sealed_KMS\<close> encrypts likewise and never decrypts.
  \<open>down_KMS\<close> is a KMS that cannot be reached: every call of it fails.
\<close>

definition bytes_externals :: "string externals" where
  "bytes_externals =
     \<lparr>Secret_zero = [],
      Secret_String = (\<lambda>s. s),
      Secret_WriteTo = (\<lambda>s. s),
      Secret_ParseString = (\<lambda>s. (s, None)),
      Secret_ReadFrom = (\<lambda>s. (s, None)),
      filepath_Join = (\<lambda>dir name. dir @ ''/'' @ name)\<rparr>"

definition stub_KMS :: "string KMS" where
  "stub_KMS =
     \<lparr>Encrypt = (\<lambda>key plaintext. (\<lparr>Key = key, Bytes = rev plaintext\<rparr>, None)),
      Decrypt = (\<lambda>ciphertext. (rev (Bytes ciphertext), None))\<rparr>"

definition sealed_KMS :: "string KMS" where
  "sealed_KMS =
     \<lparr>Encrypt = (\<lambda>key plaintext. (\<lparr>Key = key, Bytes = rev plaintext\<rparr>, None)),
      Decrypt = (\<lambda>ciphertext. ([], Some (Other ''the CMK is disabled'')))\<rparr>"

definition down_KMS :: "string KMS" where
  "down_KMS =
     \<lparr>Encrypt = (\<lambda>key plaintext. (zero_Ciphertext, Some (Other ''the KMS is not reachable''))),
      Decrypt = (\<lambda>ciphertext. ([], Some (Other ''the KMS is not reachable'')))\<rparr>"

definition new_fs :: "string \<Rightarrow> string \<Rightarrow> 's KMS option \<Rightarrow> 's fs_KeyStore" where
  "new_fs dir key kms =
     \<lparr>fs_Dir = dir, fs_Key = key, fs_KMS = kms, fs_cache = Map.empty,
      fs_files = Map.empty, fs_log = []\<rparr>"

definition new_mem :: "string \<Rightarrow> 's KMS option \<Rightarrow> 's mem_KeyStore" where
  "new_mem key kms =
     \<lparr>mem_Key = key, mem_KMS = kms, mem_cache = Map.empty, mem_store = None, mem_log = []\<rparr>"

definition fs_created :: "string fs_KeyStore" where
  "fs_created =
     fst (fs_Create bytes_externals no_faults (new_fs ''dir'' ''master-1'' (Some stub_KMS))
            ''db-key'' ''secret'')"

definition fs_evicted :: "string fs_KeyStore" where
  "fs_evicted = fs_created\<lparr>fs_cache := cache_Delete (fs_cache fs_created) ''db-key''\<rparr>"

definition mem_created :: "string mem_KeyStore" where
  "mem_created =
     fst (mem_Create bytes_externals (new_mem ''master-1'' (Some stub_KMS)) ''db-key'' ''secret'')"

definition mem_evicted :: "string mem_KeyStore" where
  "mem_evicted = mem_created\<lparr>mem_cache := cache_Delete (mem_cache mem_created) ''db-key''\<rparr>"

section \<open>Sequences of operations on the in-memory KeyStore\<close>

text \<open>
  The Secret the backend entry of a name gives when it is read again, and decrypted again
  where a KMS is configured: what \<open>Get\<close> computes behind a cache miss.
\<close>

definition mem_load :: "'s externals \<Rightarrow> 's mem_KeyStore \<Rightarrow> string \<Rightarrow> 's option" where
  "mem_load X store name =
     (case lookup (mem_store store) name of
        None \<Rightarrow> None
      | Some content \<Rightarrow>
          (case mem_KMS store of
             None \<Rightarrow>
               (case Secret_ParseString X content of
                  (sec, None) \<Rightarrow> Some sec
                | (sec, Some err) \<Rightarrow> None)
           | Some kms \<Rightarrow>
               (case ReadFrom zero_Ciphertext content of
                  (ciphertext, Some err) \<Rightarrow> None
                | (ciphertext, None) \<Rightarrow>
                    (case Decrypt kms ciphertext of
                       (sec, None) \<Rightarrow> Some sec
                     | (sec, Some err) \<Rightarrow> None))))"

text \<open>Every Secret in the cache is the one its backend entry gives.\<close>

definition mem_derivable :: "'s externals \<Rightarrow> 's mem_KeyStore \<Rightarrow> bool" where
  "mem_derivable X store \<longleftrightarrow>
     (\<forall>name s. mem_cache store name = Some s \<longrightarrow> mem_load X store name = Some s)"

text \<open>
  A Secret the store can hold: what is written for it is read back as it.  Without a KMS
  the Secret parses from its own string; with a KMS the ciphertext has a key that is not
  empty and that \<open>String\<close> may copy as it is, its record fits into \<open>MaxSize\<close>, and \<open>Decrypt\<close>
  inverts \<open>Encrypt\<close> on it.
\<close>

definition storable :: "'s externals \<Rightarrow> string \<Rightarrow> 's KMS option \<Rightarrow> 's \<Rightarrow> bool" where
  "storable X key kms_opt s =
     (case kms_opt of
        None \<Rightarrow> Secret_ParseString X (Secret_String X s) = (s, None)
      | Some kms \<Rightarrow>
          (case Encrypt kms key s of
             (ciphertext, err) \<Rightarrow>
               list_all plain (Key ciphertext) \<and> Key ciphertext \<noteq> []
               \<and> length (String ciphertext) \<le> MaxSize
               \<and> Decrypt kms ciphertext = (s, None)))"

text \<open>
  The operations of a caller, and \<open>Evict\<close> for a sweep of the cache that removes an entry.
\<close>

datatype 's operation = Create string 's | Get string | Delete string | Evict string

fun mem_apply :: "'s externals \<Rightarrow> 's mem_KeyStore \<Rightarrow> 's operation \<Rightarrow> 's mem_KeyStore" where
  "mem_apply X store (Create name s) = fst (mem_Create X store name s)"
| "mem_apply X store (Get name) = fst (mem_Get X store name)"
| "mem_apply X store (Delete name) = fst (mem_Delete store name)"
| "mem_apply X store (Evict name) = store\<lparr>mem_cache := cache_Delete (mem_cache store) name\<rparr>"

fun created_storable :: "'s externals \<Rightarrow> string \<Rightarrow> 's KMS option \<Rightarrow> 's operation \<Rightarrow> bool" where
  "created_storable X key kms_opt (Create name s) = storable X key kms_opt s"
| "created_storable X key kms_opt _ = True"

section \<open>Unfolding and evaluation\<close>

lemmas cache_defs = cache_Get_def cache_Set_def cache_Add_def cache_Delete_def
lemmas os_defs = os_OpenFile_excl_def os_Open_def os_Remove_def file_Write_def file_Sync_def
  IsExist_def IsNotExist_def
lemmas json_eval = ReadFrom_def Decode_def readValue_def isSpace_def byte_def MaxSize_def
  DecodeString_def decodeMap_def encodeStd_def quantum_bytes_def find_field_def
  zero_Ciphertext_def String_def b64_char_def num_start_def isDigit_def read_string_def
  scanner_escape_def unquote_escape_def
lemmas demo_defs = bytes_externals_def stub_KMS_def sealed_KMS_def new_fs_def new_mem_def
  no_faults_def

lemma fs_created_eq:
  \<open>fs_created =
     \<lparr>fs_Dir = ''dir'', fs_Key = ''master-1'', fs_KMS = Some stub_KMS,
      fs_cache = [''db-key'' \<mapsto> ''secret''],
      fs_files = [''dir/db-key'' \<mapsto> ''{"key":"master-1","bytes":"dGVyY2Vz"}''],
      fs_log = []\<rparr>\<close>
  by (simp add: fs_created_def fs_Create_def bytes_externals_def new_fs_def no_faults_def
        os_defs cache_defs String_def b64_char_def encodeStd_def byte_def stub_KMS_def Let_def)

lemma mem_created_eq:
  \<open>mem_created =
     \<lparr>mem_Key = ''master-1'', mem_KMS = Some stub_KMS,
      mem_cache = [''db-key'' \<mapsto> ''secret''],
      mem_store = Some [''db-key'' \<mapsto> ''{"key":"master-1","bytes":"dGVyY2Vz"}''],
      mem_log = []\<rparr>\<close>
  by (simp add: mem_created_def mem_Create_def mem_initialize_def lookup_def bytes_externals_def
        new_mem_def cache_defs String_def b64_char_def encodeStd_def byte_def stub_KMS_def
        Let_def)

lemma ReadFrom_stored:
  \<open>ReadFrom zero_Ciphertext ''{"key":"master-1","bytes":"dGVyY2Vz"}''
     = (\<lparr>Key = ''master-1'', Bytes = ''terces''\<rparr>, None)\<close>
  by (simp add: json_eval char_of_eq_iff take_bit_eq_mod)

section \<open>The base64 codec decodes what it encodes\<close>

lemma index_of_nth: "distinct xs \<Longrightarrow> n < length xs \<Longrightarrow> index_of (xs ! n) xs = Some n"
proof (induction xs arbitrary: n)
  case Nil
  then show ?case by simp
next
  case (Cons x xs)
  then show ?case by (cases n) auto
qed

lemma distinct_encodeStd: "distinct encodeStd"
  by (simp add: encodeStd_def)

lemma length_encodeStd: "length encodeStd = 64"
  by (simp add: encodeStd_def)

lemma decodeMap_b64_char: "decodeMap (b64_char n) = Some (n mod 64)"
  by (simp add: decodeMap_def b64_char_def index_of_nth distinct_encodeStd length_encodeStd)

lemma decodeMap_pad: "decodeMap (CHR ''='') = None"
  by (simp add: decodeMap_def encodeStd_def)

lemma plain_encodeStd: "list_all plain encodeStd"
  by (simp add: encodeStd_def plain_def byte_def)

lemma plain_b64_char: "plain (b64_char n)"
proof -
  have "b64_char n \<in> set encodeStd"
    by (simp add: b64_char_def length_encodeStd)
  with plain_encodeStd show ?thesis by (simp add: list_all_iff)
qed

lemma b64_char_not_newline: "b64_char n \<noteq> CR \<and> b64_char n \<noteq> LF"
  using plain_b64_char [of n] by (auto simp: plain_def byte_def)

lemma plain_EncodeToString: "list_all plain (EncodeToString bs)"
  by (induction bs rule: EncodeToString.induct)
    (simp_all add: Let_def plain_b64_char, simp_all add: plain_def byte_def)

lemma no_newline_EncodeToString: "filter (\<lambda>c. c \<noteq> CR \<and> c \<noteq> LF) (EncodeToString bs) = EncodeToString bs"
  by (induction bs rule: EncodeToString.induct)
    (simp_all add: Let_def b64_char_not_newline)


lemma byte_less: "byte c < 256"
  by (simp add: byte_def)

lemma char_of_byte: "char_of (byte c) = c"
  by (simp add: byte_def)

lemma sextets_recompose:
  fixes v :: nat
  assumes "v < 16777216"
  shows "v div 262144 mod 64 * 262144 + v div 4096 mod 64 * 4096 + v div 64 mod 64 * 64 + v mod 64 = v"
proof -
  define q1 where "q1 = v div 64"
  define q2 where "q2 = q1 div 64"
  define q3 where "q3 = q2 div 64"
  have e1: "v = q1 * 64 + v mod 64" by (simp add: q1_def)
  have e2: "q1 = q2 * 64 + q1 mod 64" by (simp add: q2_def)
  have e3: "q2 = q3 * 64 + q2 mod 64" by (simp add: q3_def)
  have d2: "v div 4096 = q2" by (simp add: q2_def q1_def div_mult2_eq)
  have d3: "v div 262144 = q3" by (simp add: q3_def q2_def q1_def div_mult2_eq)
  have "q3 < 64" using assms unfolding d3 [symmetric] by simp
  then have m3: "q3 mod 64 = q3" by simp
  have "q3 * 262144 + q2 mod 64 * 4096 + q1 mod 64 * 64 + v mod 64
      = (((q3 * 64 + q2 mod 64) * 64) + q1 mod 64) * 64 + v mod 64" by simp
  also have "\<dots> = v" using e1 e2 e3 by simp
  finally show ?thesis by (simp add: d2 d3 m3 q1_def)
qed

lemma three_bytes:
  fixes a b c :: nat
  assumes "a < 256" "b < 256" "c < 256"
  shows "(a * 65536 + b * 256 + c) div 65536 = a"
    and "(a * 65536 + b * 256 + c) div 256 mod 256 = b"
    and "(a * 65536 + b * 256 + c) mod 256 = c"
    and "a * 65536 + b * 256 + c < 16777216"
proof -
  have f1: "a * 65536 + b * 256 + c = (a * 256 + b) * 256 + c" by simp
  have f2: "a * 65536 + b * 256 + c = a * 65536 + (b * 256 + c)" by simp
  have small: "b * 256 + c < 65536" using assms by simp
  show "(a * 65536 + b * 256 + c) div 65536 = a"
    unfolding f2 using small by simp
  have "(a * 65536 + b * 256 + c) div 256 = a * 256 + b"
    unfolding f1 using assms by simp
  then show "(a * 65536 + b * 256 + c) div 256 mod 256 = b"
    using assms by simp
  have "((a * 256 + b) * 256 + c) mod 256 = c mod 256"
    by (simp only: mod_mult_self3)
  with assms(3) have "((a * 256 + b) * 256 + c) mod 256 = c" by simp
  then show "(a * 65536 + b * 256 + c) mod 256 = c"
    by (simp only: f1)
  show "a * 65536 + b * 256 + c < 16777216"
    using assms by simp
qed

lemma quantum3:
  assumes "a < 256" "b < 256" "c < (256::nat)"
  shows "quantum_bytes ((a * 65536 + b * 256 + c) div 262144 mod 64)
           ((a * 65536 + b * 256 + c) div 4096 mod 64)
           ((a * 65536 + b * 256 + c) div 64 mod 64)
           ((a * 65536 + b * 256 + c) mod 64)
         = [char_of a, char_of b, char_of c]"
proof -
  define v where "v = a * 65536 + b * 256 + c"
  note tb = three_bytes [OF assms, folded v_def]
  have recompose: "v div 262144 mod 64 * 262144 + v div 4096 mod 64 * 4096
      + v div 64 mod 64 * 64 + v mod 64 = v"
    using tb(4) by (rule sextets_recompose)
  have c1: "char_of (v div 256) = char_of b"
    using tb(2) assms(2) by simp
  have c2: "char_of v = char_of c"
    using tb(3) assms(3) by simp
  show ?thesis
    unfolding v_def [symmetric] quantum_bytes_def Let_def recompose
    using tb(1) c1 c2 by simp
qed

lemma low_sextets_zero:
  fixes a b :: nat
  shows "(a * 65536) div 64 mod 64 = 0" and "(a * 65536) mod 64 = 0"
    and "(a * 65536 + b * 256) mod 64 = 0"
proof -
  have f: "a * 65536 = a * 16 * 64 * 64" by simp
  show "(a * 65536) div 64 mod 64 = 0" by (subst f) simp
  show "(a * 65536) mod 64 = 0" by (subst f) simp
  have g: "a * 65536 + b * 256 = (a * 1024 + b * 4) * 64" by simp
  show "(a * 65536 + b * 256) mod 64 = 0" by (subst g) simp
qed

lemma decode_quanta_EncodeToString: "decode_quanta (EncodeToString bs) = Some bs"
proof (induction bs rule: EncodeToString.induct)
  case 1
  show ?case by simp
next
  case (2 a)
  have q: "quantum_bytes (byte a * 65536 div 262144 mod 64) (byte a * 65536 div 4096 mod 64) 0 0
      = [char_of (byte a), char_of (0::nat), char_of (0::nat)]"
    using quantum3 [of "byte a" 0 0] by (simp add: byte_less low_sextets_zero)
  have "decode_quanta (EncodeToString [a]) = Some (take 1 [char_of (byte a), char_of (0::nat), char_of (0::nat)])"
    by (simp only: EncodeToString.simps Let_def decode_quanta.simps decodeMap_b64_char
          decodeMap_pad q option.case prod.case simp_thms if_True)
  then show ?case by (simp add: char_of_byte)
next
  case (3 a b)
  have q: "quantum_bytes ((byte a * 65536 + byte b * 256) div 262144 mod 64)
             ((byte a * 65536 + byte b * 256) div 4096 mod 64)
             ((byte a * 65536 + byte b * 256) div 64 mod 64) 0
      = [char_of (byte a), char_of (byte b), char_of (0::nat)]"
    using quantum3 [of "byte a" "byte b" 0] by (simp add: byte_less low_sextets_zero)
  have "decode_quanta (EncodeToString [a, b])
      = Some (take 2 [char_of (byte a), char_of (byte b), char_of (0::nat)])"
    by (simp only: EncodeToString.simps Let_def decode_quanta.simps decodeMap_b64_char
          decodeMap_pad q option.case prod.case simp_thms if_True)
  then show ?case by (simp add: char_of_byte)
next
  case (4 a b c rest)
  have q: "quantum_bytes ((byte a * 65536 + byte b * 256 + byte c) div 262144 mod 64)
             ((byte a * 65536 + byte b * 256 + byte c) div 4096 mod 64)
             ((byte a * 65536 + byte b * 256 + byte c) div 64 mod 64)
             ((byte a * 65536 + byte b * 256 + byte c) mod 64)
      = [a, b, c]"
    using quantum3 [of "byte a" "byte b" "byte c"] by (simp add: byte_less char_of_byte)
  have "decode_quanta (EncodeToString (a # b # c # rest))
      = map_option ((@) [a, b, c]) (decode_quanta (EncodeToString rest))"
    by (simp only: EncodeToString.simps Let_def append.simps decode_quanta.simps
          decodeMap_b64_char q option.case prod.case)
  with "4.IH" show ?case by simp
qed

lemma DecodeString_EncodeToString: "DecodeString (EncodeToString bs) = Some bs"
  by (simp add: DecodeString_def no_newline_EncodeToString decode_quanta_EncodeToString)

section \<open>The decoder reads the first value and nothing behind it\<close>

lemma hex4_length: "hex4 es = Some r \<Longrightarrow> 4 \<le> length es"
  by (auto simp: hex4_def split: list.splits)

lemma hex4_append: "4 \<le> length es \<Longrightarrow> hex4 (es @ t) = hex4 es"
  by (auto simp: hex4_def split: list.splits)

lemma scan_string_append:
  "scan_string cs = Inr (raw, rest) \<Longrightarrow> scan_string (cs @ t) = Inr (raw, rest @ t)"
proof (induction cs arbitrary: raw rest rule: scan_string.induct)
  case 1
  then show ?case by simp
next
  case (2 c cs)
  show ?case
  proof (cases "c = DQ")
    case True
    with "2.prems" show ?thesis by simp
  next
    case notq: False
    show ?thesis
    proof (cases "c = BSL")
      case True
      with notq "2.prems" obtain e es where cs: "cs = e # es"
        by (cases cs) auto
      show ?thesis
      proof (cases "e = CHR ''u''")
        case u: True
        from "2.prems" notq True cs u obtain r where r: "hex4 es = Some r"
          by (auto split: if_splits)
        then have len: "4 \<le> length es" by (rule hex4_length)
        from "2.prems" notq True cs u r len obtain raw' where
          sub: "scan_string (drop 4 es) = Inr (raw', rest)" and raw: "raw = c # e # take 4 es @ raw'"
          by (auto simp: map_sum_def split: if_splits sum.splits)
        from len r have nothex: "\<not> (length es < 4 \<and> list_all (\<lambda>x. hexval x \<noteq> None) es)"
          by simp
        have "scan_string (drop 4 es @ t) = Inr (raw', rest @ t)"
          using "2.IH"(1) [OF notq True cs u nothex _ sub] r by simp
        with notq True cs u r len raw show ?thesis
          by (simp add: hex4_append)
      next
        case nu: False
        from "2.prems" notq True cs nu obtain raw' where
          esc: "scanner_escape e" and sub: "scan_string es = Inr (raw', rest)"
          and raw: "raw = c # e # raw'"
          by (auto simp: map_sum_def split: if_splits sum.splits)
        have "scan_string (es @ t) = Inr (raw', rest @ t)"
          using "2.IH"(2) [OF notq True cs nu esc sub] .
        with notq True cs nu esc raw show ?thesis by simp
      qed
    next
      case nb: False
      from "2.prems" notq nb obtain raw' where
        ctl: "\<not> byte c < 0x20" and sub: "scan_string cs = Inr (raw', rest)" and raw: "raw = c # raw'"
        by (auto simp: map_sum_def split: if_splits sum.splits)
      have "scan_string (cs @ t) = Inr (raw', rest @ t)"
        using "2.IH"(3) [OF notq nb ctl sub] .
      with notq nb ctl raw show ?thesis by simp
    qed
  qed
qed

lemma read_string_append:
  "read_string cs = Inr (s, rest) \<Longrightarrow> read_string (cs @ t) = Inr (s, rest @ t)"
  by (auto simp: read_string_def scan_string_append split: sum.splits option.splits)

lemma scan_num_append:
  "scan_num st acc cs = Inr (lit, rest) \<Longrightarrow> rest \<noteq> [] \<Longrightarrow>
     scan_num st acc (cs @ t) = Inr (lit, rest @ t)"
proof (induction cs arbitrary: st acc)
  case Nil
  then show ?case by (simp split: if_splits)
next
  case (Cons c cs)
  then show ?case by (cases "step_num st c") auto
qed

lemma expect_append: "expect es cs = Inr rest \<Longrightarrow> expect es (cs @ t) = Inr (rest @ t)"
  by (induction es cs rule: expect.induct) (auto split: if_splits)

lemma run_EndValue_top: "run [] (EndValue v) t = Inr (v, t)"
  by (cases t) simp_all

lemma run_EndValue_Nil:
  "run stk (EndValue w) [] = Inr (v, rest) \<Longrightarrow> stk = [] \<and> v = w \<and> rest = []"
  by (auto split: list.splits)

lemma run_append:
  "run stk m p = Inr (v, rest) \<Longrightarrow> rest \<noteq> [] \<or> (\<forall>lit. v \<noteq> JNum lit) \<Longrightarrow>
     run stk m (p @ t) = Inr (v, rest @ t)"
proof (induction stk m p rule: run.induct)
  case (1 stk m)
  then show ?case
    by (auto simp: run_EndValue_top split: list.splits mode.splits)
next
  case (2 stk v' c cs)
  then show ?case
    by (cases stk) (auto split: frame.splits if_splits)
next
  case (3 stk fs k c cs)
  then show ?case by (auto split: if_splits)
next
  case (4 stk fs c cs)
  then show ?case
    by (auto simp: read_string_append split: if_splits sum.splits)
next
  case (5 stk c cs)
  then show ?case by (auto split: if_splits)
next
  case (6 stk c cs)
  then show ?case by (auto split: if_splits)
next
  case (7 stk c cs)
  show ?case
  proof (cases "isSpace c \<or> c = CHR ''{'' \<or> c = CHR ''['' \<or> c = DQ \<or> c = CHR ''t''
      \<or> c = CHR ''f'' \<or> c = CHR ''n''")
    case True
    with 7 show ?thesis
      by (auto simp: read_string_append expect_append split: if_splits sum.splits)
  next
    case False
    with "7.prems" obtain st lit rest1 where
      st: "num_start c = Some st" and sn: "scan_num st [c] cs = Inr (lit, rest1)"
      and r: "run stk (EndValue (JNum lit)) rest1 = Inr (v, rest)"
      by (auto split: option.splits sum.splits)
    have ne: "rest1 \<noteq> []"
    proof
      assume "rest1 = []"
      with r have "run stk (EndValue (JNum lit)) [] = Inr (v, rest)" by (simp only:)
      then have "v = JNum lit \<and> rest = []" by (blast dest: run_EndValue_Nil)
      with "7.prems"(2) show False by simp
    qed
    from scan_num_append [OF sn ne] have sn': "scan_num st [c] (cs @ t) = Inr (lit, rest1 @ t)" .
    have "run stk (EndValue (JNum lit)) (rest1 @ t) = Inr (v, rest @ t)"
      using "7.IH"(8) False st sn r "7.prems"(2) by auto
    with False st sn' show ?thesis by simp
  qed
qed

section \<open>The scanner accepts only what unquoteBytes unquotes\<close>

lemma hex4_take: "4 \<le> length es \<Longrightarrow> hex4 (take 4 es @ x) = hex4 es"
  by (auto simp: hex4_def split: list.splits)

lemma scanner_escape_unquote: "scanner_escape e \<Longrightarrow> e \<noteq> CHR ''u'' \<Longrightarrow> unquote_escape e \<noteq> None"
  by (auto simp: scanner_escape_def unquote_escape_def)

lemma high_byte: "0x80 \<le> byte x \<Longrightarrow> x \<noteq> DQ \<and> x \<noteq> BSL \<and> \<not> byte x < 0x20"
  by (auto simp: byte_def)

lemma scan_string_high:
  assumes "scan_string (x # zs) = Inr (raw, rest)" and "0x80 \<le> byte x"
  shows "\<exists>raw'. raw = x # raw' \<and> scan_string zs = Inr (raw', rest)"
  using assms high_byte [OF assms(2)]
  by (auto simp: map_sum_def split: sum.splits)

lemma scan_string_head:
  assumes "scan_string zs = Inr (x # raw, rest)"
  shows "\<exists>zs'. zs = x # zs'"
  using assms
  by (cases zs) (auto simp: map_sum_def split: if_splits list.splits sum.splits)

lemma skip_high:
  "scan_string zs = Inr (raw, rest) \<Longrightarrow> k \<le> length raw \<Longrightarrow>
   (\<forall>i<k. 0x80 \<le> byte (raw ! i)) \<Longrightarrow>
     scan_string (drop k zs) = Inr (drop k raw, rest)"
proof (induction k arbitrary: zs raw)
  case 0
  then show ?case by simp
next
  case (Suc k)
  from Suc.prems(2) obtain x raw' where raw: "raw = x # raw'" by (cases raw) auto
  with Suc.prems(1) obtain zs' where zs: "zs = x # zs'" by (auto dest: scan_string_head)
  from Suc.prems(3) raw have hx: "0x80 \<le> byte x" by auto
  from scan_string_high [OF Suc.prems(1) [unfolded zs] hx] raw
  have sub: "scan_string zs' = Inr (raw', rest)" by simp
  have "scan_string (drop k zs') = Inr (drop k raw', rest)"
  proof (rule Suc.IH [OF sub])
    show "k \<le> length raw'" using Suc.prems(2) raw by simp
    show "\<forall>i<k. 0x80 \<le> byte (raw' ! i)"
    proof (intro allI impI)
      fix i assume "i < k"
      then have "Suc i < Suc k" by simp
      with Suc.prems(3) have "0x80 \<le> byte (raw ! Suc i)" by blast
      with raw show "0x80 \<le> byte (raw' ! i)" by simp
    qed
  qed
  with raw zs show ?case by simp
qed

text \<open>
  The bytes \<open>DecodeRune\<close> takes behind the first one are continuation bytes of the input.
\<close>

lemma DecodeRune_size:
  assumes "DecodeRune (c # raw) = (r, n)"
  shows "n - 1 \<le> length raw \<and> (\<forall>i<n - 1. 0x80 \<le> byte (raw ! i))"
proof -
  have cases: "n = 1 \<or> n = 2 \<or> n = 3 \<or> n = 4"
    using assms
    by (auto simp: DecodeRune_def Let_def split: if_splits option.splits prod.splits)
  have len: "n - 1 \<le> length raw"
    using assms
    by (auto simp: DecodeRune_def Let_def first_byte_def Suc_le_eq
          split: if_splits option.splits prod.splits)
  have b1: "2 \<le> n \<Longrightarrow> 0x80 \<le> byte (raw ! 0)"
    using assms
    by (auto simp: DecodeRune_def Let_def first_byte_def split: if_splits option.splits prod.splits)
  have b2: "3 \<le> n \<Longrightarrow> 0x80 \<le> byte (raw ! 1)"
    using assms
    by (auto simp: DecodeRune_def Let_def cont_byte_def split: if_splits option.splits prod.splits)
  have b3: "4 \<le> n \<Longrightarrow> 0x80 \<le> byte (raw ! 2)"
    using assms
    by (auto simp: DecodeRune_def Let_def cont_byte_def split: if_splits option.splits prod.splits)
  have "\<forall>i<n - 1. 0x80 \<le> byte (raw ! i)"
  proof (intro allI impI)
    fix i assume i: "i < n - 1"
    with cases have "i = 0 \<or> i = 1 \<or> i = 2" by auto
    with i b1 b2 b3 show "0x80 \<le> byte (raw ! i)" by auto
  qed
  with len show ?thesis by simp
qed

lemma getu4_shape:
  assumes "getu4 raw = Some r"
  shows "\<exists>es. raw = BSL # CHR ''u'' # es \<and> hex4 es = Some r"
  using assms by (auto simp: getu4_def split: list.splits if_splits)

text \<open>
  \<open>unquoteBytes\<close> does not fail on a literal the scanner has accepted, so \<open>read_string\<close>
  returns an error only where the scanner does.
\<close>

lemma unquote_scanned:
  "scan_string cs = Inr (raw, rest) \<Longrightarrow> unquote raw \<noteq> None"
proof (induction "length cs" arbitrary: cs raw rule: less_induct)
  case less
  show ?case
  proof (cases cs)
    case Nil
    with less.prems show ?thesis by simp
  next
    case (Cons c cs1)
    show ?thesis
    proof (cases "c = DQ")
      case True
      with less.prems Cons show ?thesis by simp
    next
      case notq: False
      show ?thesis
      proof (cases "c = BSL")
        case bsl: True
        with notq less.prems Cons obtain e es where cs1: "cs1 = e # es"
          by (cases cs1) auto
        show ?thesis
        proof (cases "e = CHR ''u''")
          case u: True
          from less.prems Cons notq bsl cs1 u obtain rr where rr: "hex4 es = Some rr"
            by (auto split: if_splits)
          then have len: "4 \<le> length es" by (rule hex4_length)
          from less.prems Cons notq bsl cs1 u rr len obtain raw' where
            sub: "scan_string (drop 4 es) = Inr (raw', rest)"
            and raw: "raw = c # e # take 4 es @ raw'"
            by (auto simp: map_sum_def split: if_splits sum.splits)
          have IH1: "unquote raw' \<noteq> None"
            using less.hyps [OF _ sub] Cons cs1 by simp
          have h: "hex4 (take 4 es @ raw') = Some rr"
            using len rr by (simp add: hex4_take)
          have d4: "drop 4 (take 4 es @ raw') = raw'"
            using len by simp
          have pair: "unquote (drop 10 (take 4 es @ raw')) \<noteq> None"
            if g: "getu4 raw' = Some rr1" for rr1
          proof -
            from getu4_shape [OF g] obtain es' where
              raw': "raw' = BSL # CHR ''u'' # es'" and h': "hex4 es' = Some rr1" by blast
            from sub raw' obtain ds where ds: "drop 4 es = BSL # ds"
              by (auto dest: scan_string_head)
            with sub raw' obtain ds' where ds': "ds = CHR ''u'' # ds'"
              by (cases ds) (auto simp: map_sum_def split: if_splits sum.splits)
            from sub ds ds' obtain rr' where rr': "hex4 ds' = Some rr'"
              by (auto split: if_splits)
            then have len': "4 \<le> length ds'" by (rule hex4_length)
            from sub ds ds' rr' len' raw' obtain raw'' where
              sub': "scan_string (drop 4 ds') = Inr (raw'', rest)"
              and es': "es' = take 4 ds' @ raw''"
              by (auto simp: map_sum_def split: if_splits sum.splits)
            have "length (drop 4 ds') < length cs"
              using Cons cs1 ds ds'
              by (metis (no_types, lifting) length_Cons length_drop less_Suc_eq less_imp_diff_less
                  diff_less_Suc less_trans)
            from less.hyps [OF this sub'] have "unquote raw'' \<noteq> None" .
            moreover have "drop 10 (take 4 es @ raw') = raw''"
              using len len' raw' es' by simp
            ultimately show ?thesis by simp
          qed
          show ?thesis
            unfolding raw
            using IH1 pair h d4 bsl u
            by (auto split: option.splits)
        next
          case nu: False
          from less.prems Cons notq bsl cs1 nu obtain raw' where
            esc: "scanner_escape e" and sub: "scan_string es = Inr (raw', rest)"
            and raw: "raw = c # e # raw'"
            by (auto simp: map_sum_def split: if_splits sum.splits)
          have "unquote raw' \<noteq> None"
            using less.hyps [OF _ sub] Cons cs1 by simp
          with raw bsl nu scanner_escape_unquote [OF esc nu] show ?thesis by auto
        qed
      next
        case nb: False
        from less.prems Cons notq nb obtain raw1 where
          ctl: "\<not> byte c < 0x20" and sub: "scan_string cs1 = Inr (raw1, rest)"
          and raw: "raw = c # raw1"
          by (auto simp: map_sum_def split: if_splits sum.splits)
        show ?thesis
        proof (cases "byte c < 0x80")
          case True
          have "unquote raw1 \<noteq> None"
            using less.hyps [OF _ sub] Cons by simp
          with raw notq nb ctl True show ?thesis by auto
        next
          case False
          obtain r n where dr: "DecodeRune (c # raw1) = (r, n)"
            by (cases "DecodeRune (c # raw1)")
          from DecodeRune_size [OF dr] have k: "n - 1 \<le> length raw1"
            and high: "\<forall>i<n - 1. 0x80 \<le> byte (raw1 ! i)" by simp_all
          from skip_high [OF sub k high]
          have sub': "scan_string (drop (n - 1) cs1) = Inr (drop (n - 1) raw1, rest)" .
          have "length (drop (n - 1) cs1) < length cs" using Cons by simp
          from less.hyps [OF this sub'] have "unquote (drop (n - 1) raw1) \<noteq> None" .
          with raw notq nb ctl False dr show ?thesis by auto
        qed
      qed
    qed
  qed
qed

lemma read_string_error:
  "read_string cs = Inl e \<Longrightarrow> scan_string cs = Inl e"
  by (auto simp: read_string_def dest: unquote_scanned split: sum.splits option.splits)

section \<open>Storing the members of an object\<close>

lemma saveError_Some [simp]: "saveError e saved \<noteq> None"
  by (cases saved) (simp_all add: saveError_def)

lemma saveError_Some_ex [simp]: "\<exists>y. saveError e saved = Some y"
  by (cases saved) (simp_all add: saveError_def)











section \<open>Reading back what String writes\<close>

lemma scan_string_plain: "list_all plain k \<Longrightarrow> scan_string (k @ DQ # rest) = Inr (k, rest)"
  by (induction k) (auto simp: plain_def)

lemma unquote_plain: "list_all plain k \<Longrightarrow> unquote k = Some k"
  by (induction k) (auto simp: plain_def)

lemma readValue_String:
  assumes "list_all plain (Key c)"
  shows "readValue (String c @ t)
     = Inr (JObj [(''key'', JStr (Key c)), (''bytes'', JStr (EncodeToString (Bytes c)))], t)"
  using assms
  by (simp add: readValue_def String_def isSpace_def read_string_def byte_def scanner_escape_def
        scan_string_plain unquote_plain plain_EncodeToString run_EndValue_top)

lemma Decode_String:
  assumes "list_all plain (Key c)"
  shows "Decode (String c @ t) recv = (recv\<lparr>Key := Key c, Bytes := Bytes c\<rparr>, None)"
  by (simp add: Decode_def readValue_String [OF assms] find_field_def
        DecodeString_EncodeToString)

lemma ReadFrom_String_plain:
  assumes "list_all plain (Key c)" and "length (String c) \<le> MaxSize"
  shows "ReadFrom zero_Ciphertext (String c)
     = (c, if Key c = [] then Some (ErrorsNew ''ciphertext is malformed'') else None)"
proof -
  have "Decode (String c) zero_Ciphertext = (c, None)"
    using Decode_String [OF assms(1), of "[]" zero_Ciphertext]
    by (simp add: zero_Ciphertext_def)
  with assms(2) show ?thesis by (simp add: ReadFrom_def)
qed


lemma readValue_append:
  "readValue p = Inr (v, rest) \<Longrightarrow> rest \<noteq> [] \<or> (\<forall>lit. v \<noteq> JNum lit) \<Longrightarrow>
     readValue (p @ t) = Inr (v, rest @ t)"
  unfolding readValue_def by (rule run_append)


section \<open>Get behind Create, and the cache of the in-memory KeyStore\<close>

lemma ReadFrom_String_trailing:
  assumes "list_all plain (Key c)" and "length (String c) \<le> MaxSize"
  shows "ReadFrom zero_Ciphertext (String c @ t)
     = (c, if Key c = [] then Some (ErrorsNew ''ciphertext is malformed'') else None)"
proof -
  have "take MaxSize (String c @ t) = String c @ take (MaxSize - length (String c)) t"
    using assms(2) by simp
  moreover have "Decode (String c @ take (MaxSize - length (String c)) t) zero_Ciphertext = (c, None)"
    using Decode_String [OF assms(1), of _ zero_Ciphertext] by (simp add: zero_Ciphertext_def)
  ultimately show ?thesis by (simp add: ReadFrom_def)
qed

lemma fs_Get_with_KMS_returns_zero:
  assumes "fs_KMS store = Some kms" and "fs_cache store name = None"
    and "snd (snd (fs_Get X env store name)) = None"
  shows "fst (snd (fs_Get X env store name)) = Secret_zero X"
  using assms
  by (auto simp: fs_Get_def fs_logf_def cache_defs os_defs Let_def
        split: option.splits prod.splits if_splits)

lemma fs_Get_after_Create_without_KMS:
  assumes "fs_Create X env store name s = (store1, None)" and "fs_KMS store = None"
    and "Secret_ReadFrom X (Secret_WriteTo X s) = (s, None)"
    and "open_fault env' = None"
  shows "snd (fs_Get X env' (store1\<lparr>fs_cache := cache_Delete (fs_cache store1) name\<rparr>) name)
     = (s, None)"
  using assms
  by (auto simp: fs_Create_def fs_Get_def fs_logf_def cache_defs os_defs Let_def
        split: option.splits prod.splits if_splits)

lemma mem_load_cong:
  "mem_store a = mem_store b \<Longrightarrow> mem_KMS a = mem_KMS b \<Longrightarrow> mem_load X a name = mem_load X b name"
  by (auto simp: mem_load_def split: option.splits)

lemma mem_load_after_Create:
  assumes "mem_Create X store name s = (store1, None)"
    and "storable X (mem_Key store) (mem_KMS store) s"
  shows "mem_load X store1 name = Some s"
proof (cases "mem_KMS store")
  case None
  with assms show ?thesis
    by (auto simp: mem_Create_def mem_load_def mem_initialize_def lookup_def storable_def
          mem_logf_def cache_defs Let_def split: option.splits prod.splits if_splits)
next
  case (Some kms)
  obtain ct err where enc: "Encrypt kms (mem_Key store) s = (ct, err)"
    by (cases "Encrypt kms (mem_Key store) s")
  with assms(2) Some have ok: "list_all plain (Key ct)" "Key ct \<noteq> []"
    "length (String ct) \<le> MaxSize" "Decrypt kms ct = (s, None)"
    by (simp_all add: storable_def)
  have read: "ReadFrom zero_Ciphertext (String ct) = (ct, None)"
    using ReadFrom_String_plain [OF ok(1) ok(3)] ok(2) by simp
  from assms(1) Some enc show ?thesis
    by (auto simp: mem_Create_def mem_load_def mem_initialize_def lookup_def read ok(4)
          mem_logf_def cache_defs Let_def split: option.splits prod.splits if_splits)
qed

lemma mem_Get_miss_is_load:
  assumes "mem_cache store name = None"
  shows "snd (mem_Get X store name)
     = (case mem_load X store name of
          Some s \<Rightarrow> (s, None)
        | None \<Rightarrow> snd (mem_Get X store name))"
    and "mem_load X store name = Some s \<Longrightarrow> snd (mem_Get X store name) = (s, None)"
  using assms
  by (auto simp: mem_Get_def mem_load_def cache_defs Let_def
        split: option.splits prod.splits if_splits)

lemma mem_Get_after_Create:
  assumes created: "mem_Create X store name s = (store1, None)"
    and ok: "storable X (mem_Key store) (mem_KMS store) s"
  shows "snd (mem_Get X (store1\<lparr>mem_cache := cache_Delete (mem_cache store1) name\<rparr>) name)
     = (s, None)"
proof -
  let ?evicted = "store1\<lparr>mem_cache := cache_Delete (mem_cache store1) name\<rparr>"
  have "mem_load X ?evicted name = mem_load X store1 name"
    by (rule mem_load_cong) simp_all
  with mem_load_after_Create [OF created ok] have "mem_load X ?evicted name = Some s" by simp
  moreover have "mem_cache ?evicted name = None" by (simp add: cache_Delete_def)
  ultimately show ?thesis by (rule mem_Get_miss_is_load(2) [rotated])
qed

lemma mem_load_other:
  "mem_Create X store name s = (store1, err) \<Longrightarrow> other \<noteq> name \<Longrightarrow>
     mem_load X store1 other = mem_load X store other"
  by (auto simp: mem_Create_def mem_load_def mem_initialize_def lookup_def
        mem_logf_def cache_defs Let_def split: option.splits prod.splits if_splits)

lemma mem_Create_config:
  "mem_KMS (fst (mem_Create X store name s)) = mem_KMS store
   \<and> mem_Key (fst (mem_Create X store name s)) = mem_Key store"
  by (auto simp: mem_Create_def mem_initialize_def mem_logf_def cache_defs Let_def
        split: option.splits prod.splits if_splits)

lemma mem_Get_config:
  "mem_KMS (fst (mem_Get X store name)) = mem_KMS store
   \<and> mem_Key (fst (mem_Get X store name)) = mem_Key store"
  by (auto simp: mem_Get_def mem_logf_def cache_defs Let_def
        split: option.splits prod.splits if_splits sum.splits)

lemma mem_apply_config:
  "mem_KMS (mem_apply X store x) = mem_KMS store \<and> mem_Key (mem_apply X store x) = mem_Key store"
  by (cases x) (simp_all add: mem_Create_config mem_Get_config mem_Delete_def)

lemma mem_Create_derivable:
  assumes inv: "mem_derivable X store"
    and ok: "storable X (mem_Key store) (mem_KMS store) s"
  shows "mem_derivable X (fst (mem_Create X store name s))"
proof (cases "snd (mem_Create X store name s)")
  case None
  then have created: "mem_Create X store name s = (fst (mem_Create X store name s), None)"
    by (simp add: prod_eq_iff)
  have cache: "mem_cache (fst (mem_Create X store name s)) = (mem_cache store)(name \<mapsto> s)"
    using None
    by (auto simp: mem_Create_def mem_initialize_def mem_logf_def cache_defs Let_def
          split: option.splits prod.splits if_splits)
  show ?thesis
    unfolding mem_derivable_def
  proof (intro allI impI)
    fix other s'
    assume hit: "mem_cache (fst (mem_Create X store name s)) other = Some s'"
    show "mem_load X (fst (mem_Create X store name s)) other = Some s'"
    proof (cases "other = name")
      case True
      with hit cache have "s' = s" by simp
      with True mem_load_after_Create [OF created ok] show ?thesis by simp
    next
      case False
      with hit cache have "mem_cache store other = Some s'" by simp
      with inv have "mem_load X store other = Some s'" by (simp add: mem_derivable_def)
      with mem_load_other [OF created False] show ?thesis by simp
    qed
  qed
next
  case (Some e)
  have "mem_cache (fst (mem_Create X store name s)) = mem_cache store
      \<and> (\<forall>other. mem_load X (fst (mem_Create X store name s)) other = mem_load X store other)"
    using Some
    by (auto simp: mem_Create_def mem_load_def mem_initialize_def lookup_def mem_logf_def
          cache_defs Let_def split: option.splits prod.splits if_splits)
  with inv show ?thesis by (simp add: mem_derivable_def)
qed

lemma mem_Get_derivable:
  assumes inv: "mem_derivable X store"
  shows "mem_derivable X (fst (mem_Get X store name))"
proof (cases "mem_cache store name")
  case (Some s)
  then have "fst (mem_Get X store name) = store"
    by (simp add: mem_Get_def cache_Get_def)
  with inv show ?thesis by simp
next
  case None
  have loads: "mem_load X (fst (mem_Get X store name)) other = mem_load X store other" for other
    by (auto simp: mem_Get_def mem_load_def mem_logf_def cache_defs Let_def
          split: option.splits prod.splits if_splits sum.splits)
  have cache: "mem_cache (fst (mem_Get X store name)) = mem_cache store
      \<or> (\<exists>s. mem_load X store name = Some s
            \<and> mem_cache (fst (mem_Get X store name)) = (mem_cache store)(name \<mapsto> s))"
    using None
    by (auto simp: mem_Get_def mem_load_def mem_logf_def cache_defs Let_def
          split: option.splits prod.splits if_splits sum.splits)
  from cache show ?thesis
  proof
    assume "mem_cache (fst (mem_Get X store name)) = mem_cache store"
    with inv loads show ?thesis by (simp add: mem_derivable_def)
  next
    assume "\<exists>s. mem_load X store name = Some s
        \<and> mem_cache (fst (mem_Get X store name)) = (mem_cache store)(name \<mapsto> s)"
    then obtain s where s: "mem_load X store name = Some s"
      and c: "mem_cache (fst (mem_Get X store name)) = (mem_cache store)(name \<mapsto> s)" by blast
    show ?thesis
      unfolding mem_derivable_def
    proof (intro allI impI)
      fix other s'
      assume "mem_cache (fst (mem_Get X store name)) other = Some s'"
      with c s inv show "mem_load X (fst (mem_Get X store name)) other = Some s'"
        by (cases "other = name") (simp_all add: loads mem_derivable_def)
    qed
  qed
qed

lemma mem_Delete_derivable:
  assumes inv: "mem_derivable X store"
  shows "mem_derivable X (fst (mem_Delete store name))"
  unfolding mem_derivable_def
proof (intro allI impI)
  fix other s
  assume hit: "mem_cache (fst (mem_Delete store name)) other = Some s"
  then have ne: "other \<noteq> name" and old: "mem_cache store other = Some s"
    by (auto simp: mem_Delete_def cache_Delete_def split: if_splits)
  from ne have "mem_load X (fst (mem_Delete store name)) other = mem_load X store other"
    by (cases "mem_store store")
      (auto simp: mem_Delete_def mem_load_def lookup_def split: option.splits)
  with inv old show "mem_load X (fst (mem_Delete store name)) other = Some s"
    by (simp add: mem_derivable_def)
qed

lemma mem_Evict_derivable:
  assumes inv: "mem_derivable X store"
  shows "mem_derivable X (store\<lparr>mem_cache := cache_Delete (mem_cache store) name\<rparr>)"
proof -
  let ?evicted = "store\<lparr>mem_cache := cache_Delete (mem_cache store) name\<rparr>"
  have "mem_load X ?evicted other = mem_load X store other" for other
    by (rule mem_load_cong) simp_all
  with inv show ?thesis
    by (auto simp: mem_derivable_def cache_Delete_def split: if_splits)
qed

text \<open>
  The in-memory key store keeps the invariant of claim C2 along every sequence of
  operations whose created Secrets it can hold.
\<close>

lemma mem_derivable_invariant:
  assumes "mem_derivable X store"
    and "list_all (created_storable X (mem_Key store) (mem_KMS store)) ops"
  shows "mem_derivable X (foldl (mem_apply X) store ops)"
  using assms
proof (induction ops arbitrary: store)
  case Nil
  then show ?case by simp
next
  case (Cons x ops)
  have step: "mem_derivable X (mem_apply X store x)"
  proof (cases x)
    case (Create name s)
    with Cons.prems show ?thesis by (simp add: mem_Create_derivable)
  next
    case (Get name)
    with Cons.prems show ?thesis by (simp add: mem_Get_derivable)
  next
    case (Delete name)
    with Cons.prems show ?thesis by (simp add: mem_Delete_derivable)
  next
    case (Evict name)
    with Cons.prems show ?thesis by (simp add: mem_Evict_derivable)
  qed
  from Cons.prems(2) mem_apply_config [of X store x]
  have "list_all (created_storable X (mem_Key (mem_apply X store x))
      (mem_KMS (mem_apply X store x))) ops" by simp
  from Cons.IH [OF step this] show ?case by simp
qed

section \<open>The key stores\<close>
lemma fs_Create_hit:
  "fs_cache store name = Some v \<Longrightarrow> fs_Create X env store name s = (store, Some ErrKeyExists)"
  by (simp add: fs_Create_def cache_Get_def)

lemma fs_Create_ok_cache:
  "snd (fs_Create X env store name s) = None \<Longrightarrow>
     fs_cache (fst (fs_Create X env store name s)) name = Some s"
  by (auto simp: fs_Create_def fs_logf_def cache_defs os_defs Let_def
        split: option.splits prod.splits if_splits)

lemma fs_Create_ok_files:
  "snd (fs_Create X env store name s) = None \<Longrightarrow>
     fs_files (fst (fs_Create X env store name s)) (filepath_Join X (fs_Dir store) name)
       = Some (case fs_KMS store of
                 None \<Rightarrow> Secret_WriteTo X s
               | Some kms \<Rightarrow> String (fst (Encrypt kms (fs_Key store) s)))"
  by (auto simp: fs_Create_def fs_logf_def cache_defs os_defs Let_def
        split: option.splits prod.splits if_splits)

lemma fs_Create_existing:
  "fs_files store (filepath_Join X (fs_Dir store) name) = Some content \<Longrightarrow>
     fs_files (fst (fs_Create X env store name s')) = fs_files store
     \<and> fs_cache (fst (fs_Create X env store name s')) = fs_cache store
     \<and> snd (fs_Create X env store name s')
         = Some (case fs_cache store name of
                   Some cached \<Rightarrow> ErrKeyExists
                 | None \<Rightarrow>
                     (case (case fs_KMS store of
                              None \<Rightarrow> None
                            | Some kms \<Rightarrow> snd (Encrypt kms (fs_Key store) s')) of
                        Some err \<Rightarrow> err
                      | None \<Rightarrow>
                          (case open_fault env of
                             Some msg \<Rightarrow> Other msg
                           | None \<Rightarrow> ErrKeyExists)))"
  by (auto simp: fs_Create_def fs_logf_def cache_defs os_defs Let_def
        split: option.splits prod.splits if_splits)

lemma mem_Create_hit:
  "mem_cache store name = Some v \<Longrightarrow> mem_Create X store name s = (store, Some ErrKeyExists)"
  by (simp add: mem_Create_def cache_Get_def)

lemma mem_Create_ok_cache:
  "snd (mem_Create X store name s) = None \<Longrightarrow>
     mem_cache (fst (mem_Create X store name s)) name = Some s"
  by (auto simp: mem_Create_def mem_initialize_def lookup_def mem_logf_def cache_defs Let_def
        split: option.splits prod.splits if_splits)

lemma mem_Create_ok_store:
  "snd (mem_Create X store name s) = None \<Longrightarrow>
     lookup (mem_store (fst (mem_Create X store name s))) name
       = Some (case mem_KMS store of
                 None \<Rightarrow> Secret_String X s
               | Some kms \<Rightarrow> String (fst (Encrypt kms (mem_Key store) s)))"
  by (auto simp: mem_Create_def mem_initialize_def lookup_def mem_logf_def cache_defs Let_def
        split: option.splits prod.splits if_splits)

lemma mem_Create_existing:
  "lookup (mem_store store) name = Some content \<Longrightarrow>
     mem_store (fst (mem_Create X store name s')) = mem_store store
     \<and> mem_cache (fst (mem_Create X store name s')) = mem_cache store
     \<and> snd (mem_Create X store name s')
         = Some (case mem_cache store name of
                   Some cached \<Rightarrow> ErrKeyExists
                 | None \<Rightarrow>
                     (case (case mem_KMS store of
                              None \<Rightarrow> None
                            | Some kms \<Rightarrow> snd (Encrypt kms (mem_Key store) s')) of
                        Some err \<Rightarrow> err
                      | None \<Rightarrow> ErrKeyExists))"
  by (auto simp: mem_Create_def mem_initialize_def lookup_def mem_logf_def cache_defs Let_def
        split: option.splits prod.splits if_splits)

text \<open>
  Claim C4, as it is stated, fails.  Both key stores encrypt the Secret before they look
  for the name in the backend, so a \<open>Create\<close> for a name that is present, while the cache
  has lost it and the KMS fails, returns the error of the KMS and not \<open>ErrKeyExists\<close>.  Here
  \<open>db-key\<close> is created with the Secret \<open>secret\<close>, the entry of the cache is evicted, and the
  KMS cannot be reached any more when \<open>Create\<close> is called for \<open>db-key\<close> again.
\<close>

theorem Create_existing_returns_KMS_error:
  \<open>snd (mem_Create bytes_externals (new_mem ''master-1'' (Some stub_KMS)) ''db-key'' ''secret'')
     = None
   \<and> lookup (mem_store (mem_evicted\<lparr>mem_KMS := Some down_KMS\<rparr>)) ''db-key''
     = Some ''{"key":"master-1","bytes":"dGVyY2Vz"}''
   \<and> snd (mem_Create bytes_externals (mem_evicted\<lparr>mem_KMS := Some down_KMS\<rparr>)
            ''db-key'' ''other'')
     = Some (Other ''the KMS is not reachable'')
   \<and> snd (fs_Create bytes_externals no_faults (new_fs ''dir'' ''master-1'' (Some stub_KMS))
            ''db-key'' ''secret'')
     = None
   \<and> fs_files (fs_evicted\<lparr>fs_KMS := Some down_KMS\<rparr>) ''dir/db-key''
     = Some ''{"key":"master-1","bytes":"dGVyY2Vz"}''
   \<and> snd (fs_Create bytes_externals no_faults (fs_evicted\<lparr>fs_KMS := Some down_KMS\<rparr>)
            ''db-key'' ''other'')
     = Some (Other ''the KMS is not reachable'')\<close>
proof -
  have mem_first: "snd (mem_Create bytes_externals (new_mem ''master-1'' (Some stub_KMS))
      ''db-key'' ''secret'') = None"
    by (simp add: mem_Create_def mem_initialize_def lookup_def bytes_externals_def
        new_mem_def cache_defs stub_KMS_def Let_def)
  have fs_first: "snd (fs_Create bytes_externals no_faults (new_fs ''dir'' ''master-1'' (Some stub_KMS))
      ''db-key'' ''secret'') = None"
    by (simp add: fs_Create_def bytes_externals_def new_fs_def no_faults_def
        os_defs cache_defs stub_KMS_def Let_def)
  have mem_second: "snd (mem_Create bytes_externals (mem_evicted\<lparr>mem_KMS := Some down_KMS\<rparr>)
      ''db-key'' ''other'') = Some (Other ''the KMS is not reachable'')"
    by (simp add: mem_evicted_def mem_created_eq mem_Create_def mem_logf_def lookup_def
        cache_defs down_KMS_def Let_def)
  have fs_second: "snd (fs_Create bytes_externals no_faults (fs_evicted\<lparr>fs_KMS := Some down_KMS\<rparr>)
      ''db-key'' ''other'') = Some (Other ''the KMS is not reachable'')"
    by (simp add: fs_evicted_def fs_created_eq fs_Create_def fs_logf_def
        cache_defs down_KMS_def Let_def)
  from mem_first fs_first mem_second fs_second show ?thesis
    by (simp add: mem_evicted_def mem_created_eq fs_evicted_def fs_created_eq lookup_def)
qed

text \<open>
  Claim C4, amended.  A \<open>Create\<close> for a name that is present performs no mutation and
  fails.  Right after a successful \<open>Create\<close> of \<open>name\<close> with the Secret \<open>s\<close>, the cache
  holds \<open>s\<close> and the backend holds what was written for \<open>s\<close>, and a second \<open>Create\<close> for
  \<open>name\<close> with any Secret \<open>s'\<close>, whatever fails around it, returns \<open>ErrKeyExists\<close> and the
  very same state.  For every name with an entry in the backend, \<open>Create\<close> leaves the
  backend and the cache as they are, and the error it returns is \<open>ErrKeyExists\<close> when the
  name is in the cache; when the cache has lost the name it is the error of the
  encryption, if a KMS is configured and fails, else the error of opening the file, if
  that fails for another reason than the file being there, else \<open>ErrKeyExists\<close>.  This
  holds for the file system and for the in-memory key store, which opens no file.
\<close>

theorem Create_existing_changes_nothing:
  "(snd (fs_Create X env store name s) = None \<longrightarrow>
      fs_cache (fst (fs_Create X env store name s)) name = Some s
      \<and> fs_files (fst (fs_Create X env store name s)) (filepath_Join X (fs_Dir store) name)
           = Some (case fs_KMS store of
                     None \<Rightarrow> Secret_WriteTo X s
                   | Some kms \<Rightarrow> String (fst (Encrypt kms (fs_Key store) s)))
      \<and> fs_Create X env' (fst (fs_Create X env store name s)) name s'
           = (fst (fs_Create X env store name s), Some ErrKeyExists))
   \<and> (snd (mem_Create X mstore name s) = None \<longrightarrow>
      mem_cache (fst (mem_Create X mstore name s)) name = Some s
      \<and> lookup (mem_store (fst (mem_Create X mstore name s))) name
           = Some (case mem_KMS mstore of
                     None \<Rightarrow> Secret_String X s
                   | Some kms \<Rightarrow> String (fst (Encrypt kms (mem_Key mstore) s)))
      \<and> mem_Create X (fst (mem_Create X mstore name s)) name s'
           = (fst (mem_Create X mstore name s), Some ErrKeyExists))
   \<and> (fs_files store (filepath_Join X (fs_Dir store) name) = Some content \<longrightarrow>
      fs_files (fst (fs_Create X env store name s')) = fs_files store
      \<and> fs_cache (fst (fs_Create X env store name s')) = fs_cache store
      \<and> snd (fs_Create X env store name s')
          = Some (case fs_cache store name of
                    Some cached \<Rightarrow> ErrKeyExists
                  | None \<Rightarrow>
                      (case (case fs_KMS store of
                               None \<Rightarrow> None
                             | Some kms \<Rightarrow> snd (Encrypt kms (fs_Key store) s')) of
                         Some err \<Rightarrow> err
                       | None \<Rightarrow>
                           (case open_fault env of
                              Some msg \<Rightarrow> Other msg
                            | None \<Rightarrow> ErrKeyExists))))
   \<and> (lookup (mem_store mstore) name = Some mcontent \<longrightarrow>
      mem_store (fst (mem_Create X mstore name s')) = mem_store mstore
      \<and> mem_cache (fst (mem_Create X mstore name s')) = mem_cache mstore
      \<and> snd (mem_Create X mstore name s')
          = Some (case mem_cache mstore name of
                    Some cached \<Rightarrow> ErrKeyExists
                  | None \<Rightarrow>
                      (case (case mem_KMS mstore of
                               None \<Rightarrow> None
                             | Some kms \<Rightarrow> snd (Encrypt kms (mem_Key mstore) s')) of
                         Some err \<Rightarrow> err
                       | None \<Rightarrow> ErrKeyExists)))"
proof -
  have fs_twice: "snd (fs_Create X env store name s) = None \<longrightarrow>
      fs_cache (fst (fs_Create X env store name s)) name = Some s
      \<and> fs_files (fst (fs_Create X env store name s)) (filepath_Join X (fs_Dir store) name)
           = Some (case fs_KMS store of
                     None \<Rightarrow> Secret_WriteTo X s
                   | Some kms \<Rightarrow> String (fst (Encrypt kms (fs_Key store) s)))
      \<and> fs_Create X env' (fst (fs_Create X env store name s)) name s'
           = (fst (fs_Create X env store name s), Some ErrKeyExists)"
    using fs_Create_ok_cache [of X env store name s] fs_Create_ok_files [of X env store name s]
      fs_Create_hit [of "fst (fs_Create X env store name s)" name s X env' s']
    by blast
  have mem_twice: "snd (mem_Create X mstore name s) = None \<longrightarrow>
      mem_cache (fst (mem_Create X mstore name s)) name = Some s
      \<and> lookup (mem_store (fst (mem_Create X mstore name s))) name
           = Some (case mem_KMS mstore of
                     None \<Rightarrow> Secret_String X s
                   | Some kms \<Rightarrow> String (fst (Encrypt kms (mem_Key mstore) s)))
      \<and> mem_Create X (fst (mem_Create X mstore name s)) name s'
           = (fst (mem_Create X mstore name s), Some ErrKeyExists)"
    using mem_Create_ok_cache [of X mstore name s] mem_Create_ok_store [of X mstore name s]
      mem_Create_hit [of "fst (mem_Create X mstore name s)" name s X s']
    by blast
  show ?thesis
    using fs_twice mem_twice
      fs_Create_existing [of store X name content env s']
      mem_Create_existing [of mstore name mcontent X s']
    by blast
qed

theorem Create_existing_changes_nothing_witness:
  \<open>snd (fs_Create bytes_externals no_faults (new_fs ''dir'' ''master-1'' (Some stub_KMS))
          ''db-key'' ''secret'') = None
   \<and> fs_Create bytes_externals no_faults
      (fst (fs_Create bytes_externals no_faults (new_fs ''dir'' ''master-1'' (Some stub_KMS))
              ''db-key'' ''secret''))
      ''db-key'' ''other''
     = (fst (fs_Create bytes_externals no_faults (new_fs ''dir'' ''master-1'' (Some stub_KMS))
              ''db-key'' ''secret''),
        Some ErrKeyExists)
   \<and> fs_files (fst (fs_Create bytes_externals no_faults
                       (new_fs ''dir'' ''master-1'' (Some stub_KMS)) ''db-key'' ''secret''))
        ''dir/db-key'' = Some ''{"key":"master-1","bytes":"dGVyY2Vz"}''
   \<and> snd (mem_Create bytes_externals (new_mem ''master-1'' (Some stub_KMS))
            ''db-key'' ''secret'') = None
   \<and> mem_Create bytes_externals
        (fst (mem_Create bytes_externals (new_mem ''master-1'' (Some stub_KMS))
                ''db-key'' ''secret''))
        ''db-key'' ''other''
     = (fst (mem_Create bytes_externals (new_mem ''master-1'' (Some stub_KMS))
                ''db-key'' ''secret''),
        Some ErrKeyExists)
   \<and> lookup (mem_store (fst (mem_Create bytes_externals (new_mem ''master-1'' (Some stub_KMS))
                ''db-key'' ''secret''))) ''db-key''
     = Some ''{"key":"master-1","bytes":"dGVyY2Vz"}''
   \<and> fs_files (fst (fs_Create bytes_externals no_faults fs_evicted ''db-key'' ''other''))
     = fs_files fs_evicted
   \<and> fs_cache (fst (fs_Create bytes_externals no_faults fs_evicted ''db-key'' ''other''))
     = fs_cache fs_evicted
   \<and> snd (fs_Create bytes_externals no_faults fs_evicted ''db-key'' ''other'')
     = Some ErrKeyExists
   \<and> mem_store (fst (mem_Create bytes_externals (mem_evicted\<lparr>mem_KMS := Some down_KMS\<rparr>)
                        ''db-key'' ''other''))
     = mem_store mem_evicted
   \<and> mem_cache (fst (mem_Create bytes_externals (mem_evicted\<lparr>mem_KMS := Some down_KMS\<rparr>)
                        ''db-key'' ''other''))
     = mem_cache mem_evicted
   \<and> snd (mem_Create bytes_externals (mem_evicted\<lparr>mem_KMS := Some down_KMS\<rparr>)
            ''db-key'' ''other'')
     = Some (Other ''the KMS is not reachable'')\<close>
proof -
  have fs_first: "snd (fs_Create bytes_externals no_faults
      (new_fs ''dir'' ''master-1'' (Some stub_KMS)) ''db-key'' ''secret'') = None"
    by (simp add: fs_Create_def bytes_externals_def new_fs_def no_faults_def
        os_defs cache_defs stub_KMS_def Let_def)
  have mem_first: "snd (mem_Create bytes_externals (new_mem ''master-1'' (Some stub_KMS))
      ''db-key'' ''secret'') = None"
    by (simp add: mem_Create_def mem_initialize_def lookup_def bytes_externals_def
        new_mem_def cache_defs stub_KMS_def Let_def)
  have enc: \<open>String (fst (Encrypt stub_KMS ''master-1'' ''secret''))
      = ''{"key":"master-1","bytes":"dGVyY2Vz"}''\<close>
    by (simp add: stub_KMS_def String_def b64_char_def encodeStd_def byte_def)
  have fs_present: \<open>fs_files fs_evicted (filepath_Join bytes_externals (fs_Dir fs_evicted) ''db-key'')
      = Some ''{"key":"master-1","bytes":"dGVyY2Vz"}''
      \<and> fs_cache fs_evicted ''db-key'' = None \<and> fs_KMS fs_evicted = Some stub_KMS
      \<and> fs_Key fs_evicted = ''master-1''\<close>
    by (simp add: fs_evicted_def fs_created_eq bytes_externals_def cache_defs)
  have mem_present: \<open>lookup (mem_store (mem_evicted\<lparr>mem_KMS := Some down_KMS\<rparr>)) ''db-key''
      = Some ''{"key":"master-1","bytes":"dGVyY2Vz"}''
      \<and> mem_cache (mem_evicted\<lparr>mem_KMS := Some down_KMS\<rparr>) ''db-key'' = None
      \<and> mem_store (mem_evicted\<lparr>mem_KMS := Some down_KMS\<rparr>) = mem_store mem_evicted
      \<and> mem_cache (mem_evicted\<lparr>mem_KMS := Some down_KMS\<rparr>) = mem_cache mem_evicted\<close>
    by (simp add: mem_evicted_def mem_created_eq lookup_def cache_defs)
  show ?thesis
    using Create_existing_changes_nothing
        [where X = bytes_externals and env = no_faults and env' = no_faults
           and store = "new_fs ''dir'' ''master-1'' (Some stub_KMS)" and name = "''db-key''"
           and s = "''secret''" and s' = "''other''"
           and mstore = "new_mem ''master-1'' (Some stub_KMS)"]
      Create_existing_changes_nothing
        [where X = bytes_externals and env = no_faults
           and store = fs_evicted and name = "''db-key''" and s' = "''other''"
           and content = \<open>''{"key":"master-1","bytes":"dGVyY2Vz"}''\<close>
           and mcontent = \<open>''{"key":"master-1","bytes":"dGVyY2Vz"}''\<close>
           and mstore = "mem_evicted\<lparr>mem_KMS := Some down_KMS\<rparr>"]
      fs_first mem_first enc fs_present mem_present
    by (simp add: new_fs_def new_mem_def bytes_externals_def no_faults_def down_KMS_def
          stub_KMS_def)
qed

text \<open>
  Claim C5.  In \<open>Create\<close> of the file system key store, when the file has been created
  exclusively and then the write or the sync fails with an error, \<open>Create\<close> returns that
  error and does not touch the cache.  It removes the file: when the removal succeeds the
  files are as they were before \<open>Create\<close>; when the removal fails the file stays, a line
  is added to the log, and the error returned is still the error of the write.
\<close>

theorem Create_write_failure_rolls_back:
  assumes miss: "fs_cache store name = None"
    and enc: "\<forall>kms. fs_KMS store = Some kms \<longrightarrow> snd (Encrypt kms (fs_Key store) secret) = None"
    and opened: "open_fault env = None" "fs_files store (filepath_Join X (fs_Dir store) name) = None"
    and failed: "(\<exists>n. write_fault env = Some (n, msg))
                 \<or> (write_fault env = None \<and> sync_fault env = Some msg)"
  shows "snd (fs_Create X env store name secret) = Some (Other msg)
     \<and> fs_cache (fst (fs_Create X env store name secret)) = fs_cache store
     \<and> (remove_fault env = None
          \<longrightarrow> fs_files (fst (fs_Create X env store name secret)) = fs_files store)
     \<and> (remove_fault env \<noteq> None
          \<longrightarrow> fs_files (fst (fs_Create X env store name secret))
                (filepath_Join X (fs_Dir store) name) \<noteq> None
            \<and> last (fs_log (fst (fs_Create X env store name secret)))
                = (''fs: cannot remove %s: %v'',
                   [S (filepath_Join X (fs_Dir store) name), E (Other msg)]))"
  using assms
  by (auto simp: fs_Create_def fs_logf_def cache_defs os_defs Let_def
        split: option.splits prod.splits if_splits)

theorem Create_write_failure_rolls_back_witness:
  "snd (fs_Create bytes_externals
          \<lparr>open_fault = None, write_fault = Some (3, ''no space left on device''),
           sync_fault = None, remove_fault = None\<rparr>
          (new_fs ''dir'' ''master-1'' None) ''db-key'' ''secret'')
     = Some (Other ''no space left on device'')
   \<and> fs_files (fst (fs_Create bytes_externals
          \<lparr>open_fault = None, write_fault = Some (3, ''no space left on device''),
           sync_fault = None, remove_fault = None\<rparr>
          (new_fs ''dir'' ''master-1'' None) ''db-key'' ''secret'')) = Map.empty
   \<and> snd (fs_Create bytes_externals
          \<lparr>open_fault = None, write_fault = None,
           sync_fault = Some ''input/output error'', remove_fault = Some ''read-only''\<rparr>
          (new_fs ''dir'' ''master-1'' None) ''db-key'' ''secret'')
     = Some (Other ''input/output error'')
   \<and> fs_files (fst (fs_Create bytes_externals
          \<lparr>open_fault = None, write_fault = None,
           sync_fault = Some ''input/output error'', remove_fault = Some ''read-only''\<rparr>
          (new_fs ''dir'' ''master-1'' None) ''db-key'' ''secret'')) ''dir/db-key'' \<noteq> None"
  using Create_write_failure_rolls_back
      [where X = bytes_externals and store = "new_fs ''dir'' ''master-1'' None"
         and name = "''db-key''" and secret = "''secret''"
         and msg = "''no space left on device''"
         and env = "\<lparr>open_fault = None, write_fault = Some (3, ''no space left on device''),
                      sync_fault = None, remove_fault = None\<rparr>"]
    Create_write_failure_rolls_back
      [where X = bytes_externals and store = "new_fs ''dir'' ''master-1'' None"
         and name = "''db-key''" and secret = "''secret''"
         and msg = "''input/output error''"
         and env = "\<lparr>open_fault = None, write_fault = None,
                      sync_fault = Some ''input/output error'',
                      remove_fault = Some ''read-only''\<rparr>"]
  by (simp add: new_fs_def bytes_externals_def)

text \<open>
  Claim C8.  With a KMS configured, a \<open>Get\<close> that misses the cache and finds the backend
  entry returns \<open>ErrKeySealed\<close> whenever the stored record does not parse as a Ciphertext
  or the \<open>Decrypt\<close> of the KMS returns an error, whatever that error is.  This holds for the
  file system and for the in-memory key store.
\<close>

theorem Get_undecryptable_is_sealed:
  "(fs_cache store name = None \<and> fs_KMS store = Some kms \<and> open_fault env = None
      \<and> fs_files store (filepath_Join X (fs_Dir store) name) = Some content
      \<and> (snd (ReadFrom zero_Ciphertext content) \<noteq> None
           \<or> snd (Decrypt kms (fst (ReadFrom zero_Ciphertext content))) \<noteq> None)
     \<longrightarrow> snd (snd (fs_Get X env store name)) = Some ErrKeySealed)
   \<and> (mem_cache mstore name = None \<and> mem_KMS mstore = Some kms
      \<and> lookup (mem_store mstore) name = Some content
      \<and> (snd (ReadFrom zero_Ciphertext content) \<noteq> None
           \<or> snd (Decrypt kms (fst (ReadFrom zero_Ciphertext content))) \<noteq> None)
     \<longrightarrow> snd (snd (mem_Get X mstore name)) = Some ErrKeySealed)"
  by (auto simp: fs_Get_def mem_Get_def fs_logf_def mem_logf_def cache_defs os_defs Let_def
        split: option.splits prod.splits if_splits)

theorem Get_undecryptable_is_sealed_witness:
  \<open>snd (snd (fs_Get bytes_externals no_faults
       \<lparr>fs_Dir = ''dir'', fs_Key = ''master-1'', fs_KMS = Some sealed_KMS,
        fs_cache = Map.empty,
        fs_files = [''dir/db-key'' \<mapsto> ''{"key":"master-1","bytes":"dGVyY2Vz"}''],
        fs_log = []\<rparr> ''db-key'')) = Some ErrKeySealed
   \<and> snd (snd (mem_Get bytes_externals
       \<lparr>mem_Key = ''master-1'', mem_KMS = Some sealed_KMS, mem_cache = Map.empty,
        mem_store = Some [''db-key'' \<mapsto> ''{"key":"master-1","bytes":"dGVyY2Vz"}''],
        mem_log = []\<rparr> ''db-key'')) = Some ErrKeySealed\<close>
  using Get_undecryptable_is_sealed
      [where X = bytes_externals and env = no_faults and kms = sealed_KMS
         and name = "''db-key''"
         and content = \<open>''{"key":"master-1","bytes":"dGVyY2Vz"}''\<close>
         and store = \<open>\<lparr>fs_Dir = ''dir'', fs_Key = ''master-1'', fs_KMS = Some sealed_KMS,
              fs_cache = Map.empty,
              fs_files = [''dir/db-key'' \<mapsto> ''{"key":"master-1","bytes":"dGVyY2Vz"}''],
              fs_log = []\<rparr>\<close>
         and mstore = \<open>\<lparr>mem_Key = ''master-1'', mem_KMS = Some sealed_KMS,
              mem_cache = Map.empty,
              mem_store = Some [''db-key'' \<mapsto> ''{"key":"master-1","bytes":"dGVyY2Vz"}''],
              mem_log = []\<rparr>\<close>]
  by (simp add: bytes_externals_def no_faults_def lookup_def)
    (simp add: sealed_KMS_def)

text \<open>
  Claim C9.  \<open>Delete\<close> of a name that is absent returns no error and leaves the backend as
  it is; and after a \<open>Delete\<close> that returned no error, \<open>Get\<close> of the same name returns
  \<open>ErrKeyNotFound\<close>.  For the file system key store this is for calls of the operating
  system that do not fail for reasons of their own; the in-memory \<open>Delete\<close> never fails.
\<close>

theorem Delete_idempotent_then_Get_not_found:
  "(remove_fault env = None \<and> fs_files store (filepath_Join X (fs_Dir store) name) = None
      \<longrightarrow> snd (fs_Delete X env store name) = None
          \<and> fs_files (fst (fs_Delete X env store name)) = fs_files store)
   \<and> (snd (fs_Delete X env store name) = None \<and> open_fault env' = None
      \<longrightarrow> snd (fs_Get X env' (fst (fs_Delete X env store name)) name)
            = (Secret_zero X, Some ErrKeyNotFound))
   \<and> snd (mem_Delete mstore name) = None
   \<and> (lookup (mem_store mstore) name = None
      \<longrightarrow> mem_store (fst (mem_Delete mstore name)) = mem_store mstore)
   \<and> snd (mem_Get X (fst (mem_Delete mstore name)) name) = (Secret_zero X, Some ErrKeyNotFound)"
  by (auto simp: fs_Delete_def fs_Get_def mem_Delete_def mem_Get_def lookup_def fs_logf_def
        cache_defs os_defs Let_def split: option.splits prod.splits if_splits)

theorem Delete_idempotent_then_Get_not_found_witness:
  "snd (fs_Delete bytes_externals no_faults (new_fs ''dir'' ''master-1'' None) ''db-key'') = None
   \<and> snd (fs_Get bytes_externals no_faults
        (fst (fs_Delete bytes_externals no_faults
          (fst (fs_Create bytes_externals no_faults (new_fs ''dir'' ''master-1'' None)
                  ''db-key'' ''secret''))
          ''db-key'')) ''db-key'') = ([], Some ErrKeyNotFound)
   \<and> snd (mem_Get bytes_externals
        (fst (mem_Delete
          (fst (mem_Create bytes_externals (new_mem ''master-1'' None) ''db-key'' ''secret''))
          ''db-key'')) ''db-key'') = ([], Some ErrKeyNotFound)"
  using Delete_idempotent_then_Get_not_found
      [where X = bytes_externals and env = no_faults and env' = no_faults
         and store = "new_fs ''dir'' ''master-1'' None" and name = "''db-key''"
         and mstore = "new_mem ''master-1'' None"]
    Delete_idempotent_then_Get_not_found
      [where X = bytes_externals and env = no_faults and env' = no_faults
         and store = "fst (fs_Create bytes_externals no_faults (new_fs ''dir'' ''master-1'' None)
                             ''db-key'' ''secret'')"
         and name = "''db-key''"
         and mstore = "fst (mem_Create bytes_externals (new_mem ''master-1'' None)
                              ''db-key'' ''secret'')"]
  by (simp add: no_faults_def new_fs_def new_mem_def bytes_externals_def fs_Delete_def
        fs_Create_def os_defs cache_defs Let_def)

text \<open>
  Claim C1, at the input where the code departs from it: the file system key store with a
  KMS whose \<open>Decrypt\<close> inverts its \<open>Encrypt\<close>.  \<open>Create\<close> of \<^verbatim>\<open>db-key\<close> with the Secret
  \<^verbatim>\<open>secret\<close> succeeds; once the cache has lost the entry, \<open>Get\<close> reads the backend and
  returns the zero Secret without an error.  The in-memory key store returns the Secret.
\<close>

theorem fs_Get_after_Create_returns_zero_Secret:
  \<open>snd (fs_Create bytes_externals no_faults (new_fs ''dir'' ''master-1'' (Some stub_KMS))
          ''db-key'' ''secret'') = None
   \<and> fs_cache fs_evicted ''db-key'' = None
   \<and> fs_files fs_evicted ''dir/db-key'' = Some ''{"key":"master-1","bytes":"dGVyY2Vz"}''
   \<and> snd (fs_Get bytes_externals no_faults fs_evicted ''db-key'') = ([], None)
   \<and> snd (mem_Get bytes_externals mem_evicted ''db-key'') = (''secret'', None)\<close>
proof -
  have created: "snd (fs_Create bytes_externals no_faults
      (new_fs ''dir'' ''master-1'' (Some stub_KMS)) ''db-key'' ''secret'') = None"
    by (simp add: fs_Create_def bytes_externals_def new_fs_def no_faults_def stub_KMS_def
          os_defs cache_defs)
  have fs: "snd (fs_Get bytes_externals no_faults fs_evicted ''db-key'') = ([], None)"
    by (simp add: fs_Get_def fs_evicted_def fs_created_eq ReadFrom_stored os_defs cache_defs
          no_faults_def Let_def bytes_externals_def stub_KMS_def)
  have mem: "snd (mem_Get bytes_externals mem_evicted ''db-key'') = (''secret'', None)"
    by (simp add: mem_Get_def mem_evicted_def mem_created_eq ReadFrom_stored lookup_def
          cache_defs Let_def bytes_externals_def stub_KMS_def)
  show ?thesis
    using created fs mem by (simp add: fs_evicted_def fs_created_eq cache_defs)
qed

text \<open>
  Claim C2, at the same input: after that \<open>Get\<close> the cache of the file system key store
  holds the zero Secret for \<^verbatim>\<open>db-key\<close>, while the backend entry, read and decrypted
  again, gives the Secret that was created; the next \<open>Get\<close> is served from the cache and
  returns the zero Secret.
\<close>

theorem fs_cache_not_derivable_from_backend:
  \<open>fs_cache (fst (fs_Get bytes_externals no_faults fs_evicted ''db-key'')) ''db-key'' = Some []
   \<and> fs_files (fst (fs_Get bytes_externals no_faults fs_evicted ''db-key'')) ''dir/db-key''
       = Some ''{"key":"master-1","bytes":"dGVyY2Vz"}''
   \<and> ReadFrom zero_Ciphertext ''{"key":"master-1","bytes":"dGVyY2Vz"}''
       = (\<lparr>Key = ''master-1'', Bytes = ''terces''\<rparr>, None)
   \<and> Decrypt stub_KMS \<lparr>Key = ''master-1'', Bytes = ''terces''\<rparr> = (''secret'', None)
   \<and> snd (fs_Get bytes_externals no_faults
            (fst (fs_Get bytes_externals no_faults fs_evicted ''db-key'')) ''db-key'')
       = ([], None)\<close>
proof -
  have got: "fst (fs_Get bytes_externals no_faults fs_evicted ''db-key'')
      = fs_created\<lparr>fs_cache := [''db-key'' \<mapsto> []]\<rparr>"
    by (simp add: fs_Get_def fs_evicted_def fs_created_eq ReadFrom_stored os_defs cache_defs
          no_faults_def Let_def bytes_externals_def stub_KMS_def)
  have again: "snd (fs_Get bytes_externals no_faults
      (fs_created\<lparr>fs_cache := [''db-key'' \<mapsto> []]\<rparr>) ''db-key'') = ([], None)"
    by (simp add: fs_Get_def cache_defs)
  show ?thesis
    using again by (simp add: got fs_created_eq ReadFrom_stored stub_KMS_def)
qed

section \<open>The Ciphertext codec\<close>

text \<open>
  Claim C3, at an input where the code departs from it: a Ciphertext whose key holds a
  double quote.  \<open>String\<close> copies the key as it is, the result is not a JSON value, and
  \<open>ReadFrom\<close> of it fails.
\<close>

theorem ReadFrom_String_quote_in_key:
  \<open>String \<lparr>Key = ''a"b'', Bytes = []\<rparr> = ''{"key":"a"b","bytes":""}''
   \<and> readValue (String \<lparr>Key = ''a"b'', Bytes = []\<rparr>) = Inl SyntaxError
   \<and> ReadFrom zero_Ciphertext (String \<lparr>Key = ''a"b'', Bytes = []\<rparr>)
       = (zero_Ciphertext, Some (ErrorsNew ''ciphertext is malformed''))\<close>
  by (simp add: json_eval)

text \<open>
  Claim C6, as it is stated, fails: an input of more than 10 MiB is not rejected for its
  size.  The \<^verbatim>\<open>io.LimitedReader\<close> ends the input after \<open>MaxSize\<close> bytes and the decoder
  reads the first value only, so a record of 22 bytes followed by \<open>MaxSize\<close> spaces is read
  without an error.
\<close>

theorem ReadFrom_accepts_input_over_MaxSize:
  \<open>MaxSize < length (''{"key":"k","bytes":""}'' @ replicate MaxSize (CHR '' ''))
   \<and> ReadFrom zero_Ciphertext (''{"key":"k","bytes":""}'' @ replicate MaxSize (CHR '' ''))
       = (\<lparr>Key = ''k'', Bytes = []\<rparr>, None)\<close>
proof -
  let ?c = "\<lparr>Key = ''k'', Bytes = []\<rparr>"
  have str: \<open>String ?c = ''{"key":"k","bytes":""}''\<close>
    by (simp add: String_def)
  have key: "list_all plain (Key ?c)"
    by (simp add: plain_def byte_def)
  have fits: "length (String ?c) \<le> MaxSize"
    by (simp add: String_def MaxSize_def)
  from ReadFrom_String_trailing [OF key fits, of "replicate MaxSize (CHR '' '')"]
  show ?thesis by (simp add: str)
qed

text \<open>
  Claim C6, amended.  \<open>ReadFrom\<close> reads at most the first \<open>MaxSize\<close> bytes, that is 10 MiB,
  of its input.  The record of an input is its first JSON value, and the size of the record
  the number of bytes up to its end.  For every input that has no record ending within its
  first \<open>MaxSize\<close> bytes, so for every input whose record is larger than 10 MiB, \<open>ReadFrom\<close>
  fails with the malformed-ciphertext error and stores no field: the receiver is returned
  as it was, since the decoder fails while it reads the value, or has read a bare number,
  which has no fields.  And for an input that starts with a record \<open>p\<close> of at most \<open>MaxSize\<close>
  bytes, \<open>ReadFrom\<close> returns what it returns for \<open>p\<close> alone, whatever follows and however
  long the input is.
\<close>

theorem ReadFrom_reads_at_most_MaxSize:
  "((\<forall>v rest. readValue r = Inr (v, rest) \<longrightarrow> MaxSize < length r - length rest) \<longrightarrow>
      ReadFrom c r = (c, Some (ErrorsNew ''ciphertext is malformed''))
      \<and> ((\<exists>e. readValue (take MaxSize r) = Inl e)
           \<or> (\<exists>lit. readValue (take MaxSize r) = Inr (JNum lit, []))))
   \<and> (readValue p = Inr (w, []) \<and> (\<forall>lit. w \<noteq> JNum lit) \<and> length p \<le> MaxSize \<longrightarrow>
      ReadFrom c (p @ t) = ReadFrom c p)"
proof -
  have oversize: "ReadFrom c r = (c, Some (ErrorsNew ''ciphertext is malformed''))
      \<and> ((\<exists>e. readValue (take MaxSize r) = Inl e)
           \<or> (\<exists>lit. readValue (take MaxSize r) = Inr (JNum lit, [])))"
    if none: "\<forall>v rest. readValue r = Inr (v, rest) \<longrightarrow> MaxSize < length r - length rest"
  proof -
    have split: "take MaxSize r @ drop MaxSize r = r" by simp
    have early: "(\<exists>e. readValue (take MaxSize r) = Inl e)
        \<or> (\<exists>lit. readValue (take MaxSize r) = Inr (JNum lit, []))"
    proof (cases "readValue (take MaxSize r)")
      case (Inl e)
      then show ?thesis by simp
    next
      case (Inr vr)
      obtain v' rest' where vr: "vr = (v', rest')" by (cases vr)
      show ?thesis
      proof (cases "rest' \<noteq> [] \<or> (\<forall>lit. v' \<noteq> JNum lit)")
        case True
        from Inr vr have "readValue (take MaxSize r) = Inr (v', rest')" by simp
        from readValue_append [OF this True, of "drop MaxSize r"]
        have "readValue r = Inr (v', rest' @ drop MaxSize r)" by (simp only: split)
        with none have "MaxSize < length r - length (rest' @ drop MaxSize r)" by blast
        then show ?thesis by simp
      next
        case False
        with Inr vr show ?thesis by auto
      qed
    qed
    then have "ReadFrom c r = (c, Some (ErrorsNew ''ciphertext is malformed''))"
      by (auto simp: ReadFrom_def Decode_def)
    with early show ?thesis by simp
  qed
  have trailing: "ReadFrom c (p @ t) = ReadFrom c p"
    if p: "readValue p = Inr (w, [])" and w: "\<forall>lit. w \<noteq> JNum lit" and fits: "length p \<le> MaxSize"
  proof -
    have cut: "take MaxSize (p @ t) = p @ take (MaxSize - length p) t"
      using fits by simp
    from w have "[] \<noteq> ([] :: string) \<or> (\<forall>lit. w \<noteq> JNum lit)" by simp
    from readValue_append [OF p this, of "take (MaxSize - length p) t"]
    have "readValue (p @ take (MaxSize - length p) t) = Inr (w, take (MaxSize - length p) t)"
      by simp
    with p fits show ?thesis
      by (simp add: ReadFrom_def Decode_def cut)
  qed
  from oversize trailing show ?thesis by blast
qed

theorem ReadFrom_reads_at_most_MaxSize_witness:
  \<open>ReadFrom zero_Ciphertext
      (String \<lparr>Key = replicate (Suc MaxSize) (CHR ''a''), Bytes = []\<rparr>)
     = (zero_Ciphertext, Some (ErrorsNew ''ciphertext is malformed''))
   \<and> ReadFrom zero_Ciphertext (''{"key":"k","bytes":""}'' @ replicate MaxSize (CHR ''x''))
     = ReadFrom zero_Ciphertext ''{"key":"k","bytes":""}''\<close>
proof -
  let ?c = "\<lparr>Key = replicate (Suc MaxSize) (CHR ''a''), Bytes = []\<rparr>"
  have key: "list_all plain (Key ?c)"
    by (simp add: list_all_iff plain_def byte_def)
  have read: "readValue (String ?c)
      = Inr (JObj [(''key'', JStr (Key ?c)), (''bytes'', JStr (EncodeToString (Bytes ?c)))], [])"
    using readValue_String [OF key, of "[]"] by simp
  have size: "MaxSize < length (String ?c)"
    by (simp add: String_def)
  have small: \<open>readValue ''{"key":"k","bytes":""}''
      = Inr (JObj [(''key'', JStr ''k''), (''bytes'', JStr [])], [])
      \<and> length ''{"key":"k","bytes":""}'' \<le> MaxSize\<close>
    by (simp add: json_eval)
  show ?thesis
    using ReadFrom_reads_at_most_MaxSize
        [where r = "String ?c" and c = zero_Ciphertext
           and p = \<open>''{"key":"k","bytes":""}''\<close>
           and w = "JObj [(''key'', JStr ''k''), (''bytes'', JStr [])]"
           and t = "replicate MaxSize (CHR ''x'')"]
      read size small
    by simp
qed



text \<open>
  Claim C10.  The check of the key in \<open>ReadFrom\<close> is whether the key is the empty string:
  when the decoder returns no error, \<open>ReadFrom\<close> fails exactly if the key it stored is
  empty.  So the record \<open>String\<close> writes for a key of \<open>n > 0\<close> spaces is read back with that
  key, and the record for the empty key is rejected.
\<close>

theorem ReadFrom_rejects_only_the_empty_key:
  "(Decode (take MaxSize r) recv = (c', None) \<longrightarrow>
      ReadFrom recv r
        = (c', if Key c' = [] then Some (ErrorsNew ''ciphertext is malformed'') else None))
   \<and> (0 < n \<and> length (String \<lparr>Key = replicate n (CHR '' ''), Bytes = b\<rparr>) \<le> MaxSize \<longrightarrow>
      ReadFrom zero_Ciphertext (String \<lparr>Key = replicate n (CHR '' ''), Bytes = b\<rparr>)
        = (\<lparr>Key = replicate n (CHR '' ''), Bytes = b\<rparr>, None))
   \<and> (length (String \<lparr>Key = [], Bytes = b\<rparr>) \<le> MaxSize \<longrightarrow>
      ReadFrom zero_Ciphertext (String \<lparr>Key = [], Bytes = b\<rparr>)
        = (\<lparr>Key = [], Bytes = b\<rparr>, Some (ErrorsNew ''ciphertext is malformed'')))"
proof -
  have exact: "Decode (take MaxSize r) recv = (c', None) \<longrightarrow>
      ReadFrom recv r
        = (c', if Key c' = [] then Some (ErrorsNew ''ciphertext is malformed'') else None)"
    by (simp add: ReadFrom_def)
  have spaces: "list_all plain (replicate n (CHR '' ''))"
    by (simp add: list_all_iff plain_def byte_def)
  show ?thesis
    using exact
      ReadFrom_String_plain [of "\<lparr>Key = replicate n (CHR '' ''), Bytes = b\<rparr>"]
      ReadFrom_String_plain [of "\<lparr>Key = [], Bytes = b\<rparr>"]
      spaces
    by simp
qed

theorem ReadFrom_rejects_only_the_empty_key_witness:
  \<open>ReadFrom zero_Ciphertext ''{"key":" ","bytes":""}'' = (\<lparr>Key = '' '', Bytes = []\<rparr>, None)
   \<and> ReadFrom zero_Ciphertext ''{"key":"","bytes":""}''
       = (\<lparr>Key = [], Bytes = []\<rparr>, Some (ErrorsNew ''ciphertext is malformed''))\<close>
  using ReadFrom_rejects_only_the_empty_key
      [where n = 1 and b = "[]" and r = \<open>''{"key":" ","bytes":""}''\<close>
         and recv = zero_Ciphertext and c' = \<open>\<lparr>Key = '' '', Bytes = []\<rparr>\<close>]
  by (simp add: String_def MaxSize_def)

end
